theory Spec2Isabelle
  imports Complex_Main
begin

section \<open>Data model of the test runner (src/lib/test-runner.ts)\<close>

text \<open>
  The runner drives a language model through attempt/retry loops. The model call itself,
  the prompt templates, the schemas and the JSON functions live in other modules; they
  are parameters here (record \<open>env\<close>). Clock readings (\<open>timestamp\<close>, \<open>durationMs\<close>,
  \<open>totalDurationMs\<close>) and the optional observer callbacks \<open>onProgress\<close> and
  \<open>onRunComplete\<close> are left out of the records and functions: no result of the runner
  depends on them.
\<close>

subsection \<open>JSON values and JavaScript truthiness\<close>

datatype json =
    JNull
  | JBool bool
  | JNum int
  | JStr string
  | JArr "json list"
  | JObj "(string \<times> json) list"

text \<open>\<open>!x\<close> in JavaScript: \<open>null\<close>, \<open>false\<close>, \<open>0\<close> and the empty string are falsy.\<close>

fun truthy :: "json \<Rightarrow> bool" where
  "truthy JNull = False"
| "truthy (JBool b) = b"
| "truthy (JNum n) = (n \<noteq> 0)"
| "truthy (JStr s) = (s \<noteq> [])"
| "truthy (JArr xs) = True"
| "truthy (JObj kvs) = True"

text \<open>A variable holding \<open>T | null\<close> or an optional property: \<open>None\<close> is falsy too.\<close>

definition falsy_opt :: "json option \<Rightarrow> bool" where
  "falsy_opt v = (case v of None \<Rightarrow> True | Some j \<Rightarrow> \<not> truthy j)"

subsection \<open>Strings\<close>

text \<open>\<open>String.prototype.toLowerCase\<close> on the ASCII letters, \<open>String.prototype.includes\<close>.\<close>

definition toLowerChar :: "char \<Rightarrow> char" where
  "toLowerChar c =
     (case map_of (zip ''ABCDEFGHIJKLMNOPQRSTUVWXYZ'' ''abcdefghijklmnopqrstuvwxyz'') c of
        None \<Rightarrow> c
      | Some l \<Rightarrow> l)"

definition toLowerCase :: "string \<Rightarrow> string" where
  "toLowerCase s = map toLowerChar s"

fun startsWith :: "string \<Rightarrow> string \<Rightarrow> bool" where
  "startsWith s [] = True"
| "startsWith [] (p # ps) = False"
| "startsWith (c # cs) (p # ps) = (c = p \<and> startsWith cs ps)"

fun str_includes :: "string \<Rightarrow> string \<Rightarrow> bool" where
  "str_includes [] p = (p = [])"
| "str_includes (c # cs) p = (startsWith (c # cs) p \<or> str_includes cs p)"

text \<open>\<open>xs.join(sep)\<close>\<close>

fun join :: "string \<Rightarrow> string list \<Rightarrow> string" where
  "join sep [] = []"
| "join sep [x] = x"
| "join sep (x # y # ys) = x @ sep @ join sep (y # ys)"

subsection \<open>Thrown values\<close>

text \<open>
  What a \<open>catch\<close> clause of the runner inspects of a thrown value: whether it is an
  \<open>Error\<close> instance and of which class, its \<open>message\<close> (for a value that is not an
  \<open>Error\<close>, the field holds \<open>String(error)\<close>), a \<open>status\<close> and a \<open>text\<close> property when
  present, and the issues of a \<open>ZodError\<close>. The path of an issue is kept as the strings
  \<open>e.path.map(String)\<close> yields.
\<close>

datatype err_class = ZodErrorK | SyntaxErrorK | ErrorK | NotErrorK

record ValidationError =
  path :: "string list"
  message :: string
  code :: string

record thrown =
  err_kind :: err_class
  err_message :: string
  err_status :: "int option"
  err_text :: "string option"
  err_issues :: "ValidationError list"

definition js_undefined :: thrown where
  "js_undefined =
     \<lparr>err_kind = NotErrorK, err_message = ''undefined'', err_status = None,
      err_text = None, err_issues = []\<rparr>"

definition new_Error :: "string \<Rightarrow> thrown" where
  "new_Error m =
     \<lparr>err_kind = ErrorK, err_message = m, err_status = None, err_text = None, err_issues = []\<rparr>"

definition parseZodErrors :: "thrown \<Rightarrow> ValidationError list" where
  "parseZodErrors error =
     map (\<lambda>e. \<lparr>path = path e, message = message e, code = code e\<rparr>) (err_issues error)"

subsection \<open>Messages, models, configuration\<close>

datatype role = System | User | Assistant

record chat_message =
  role :: role
  content :: string

record ModelConfig =
  model_id :: string
  model_name :: string
  provider :: string
  supportsStrictMode :: bool
  isReasoningModel :: bool

text \<open>\<open>maxRetries\<close> and \<open>runsPerScenario\<close> are counts: natural numbers.\<close>

record TestConfig =
  temperature :: rat
  maxRetries :: nat
  runsPerScenario :: nat

text \<open>The options of one model call: the messages, and either the temperature or the
  fixed low reasoning effort.\<close>

record call_options =
  call_messages :: "chat_message list"
  call_temperature :: "rat option"
  call_reasoningEffort :: "string option"

definition call_options_of :: "ModelConfig \<Rightarrow> chat_message list \<Rightarrow> TestConfig \<Rightarrow> call_options" where
  "call_options_of model messages config =
     \<lparr>call_messages = messages,
      call_temperature = (if isReasoningModel model then None else Some (temperature config)),
      call_reasoningEffort = (if isReasoningModel model then Some ''low'' else None)\<rparr>"

text \<open>What \<open>generateText\<close> and \<open>generateObject\<close> resolve to: the text or the object, and
  the token usage where the provider reports it.\<close>

record text_result =
  gen_text :: string
  text_inputTokens :: "nat option"
  text_outputTokens :: "nat option"

record object_result =
  gen_object :: json
  object_inputTokens :: "nat option"
  object_outputTokens :: "nat option"

text \<open>\<open>x || 0\<close> on an optional token count.\<close>

definition or_zero :: "nat option \<Rightarrow> nat" where
  "or_zero x = (case x of None \<Rightarrow> 0 | Some n \<Rightarrow> n)"

text \<open>
  The collaborators of the runner. The provider is an oracle: \<open>generateText E k opts\<close> is
  the outcome of the \<open>k\<close>-th model call of the process when it is made with \<open>opts\<close>
  (\<open>Inl\<close> a thrown value). A schema is its \<open>parse\<close> function, which returns the validated
  value or throws.
\<close>

type_synonym schema = "json \<Rightarrow> thrown + json"

record env =
  generateText :: "nat \<Rightarrow> call_options \<Rightarrow> thrown + text_result"
  generateObject :: "nat \<Rightarrow> call_options \<Rightarrow> thrown + object_result"
  JSON_parse :: "string \<Rightarrow> thrown + json"
  JSON_stringify :: "json \<Rightarrow> string"
  extractJson :: "string \<Rightarrow> string"
  getRetryPrompt :: "string \<Rightarrow> ValidationError list \<Rightarrow> string"
  systemPrompt :: string
  formatConversation :: string
  getOneShotPrompt :: string
  oneShotStrictPrompt :: string
  sequentialPrompt :: "nat \<Rightarrow> bool \<Rightarrow> string"
  ResponseSchema :: schema
  SequentialPartSchema :: "nat \<Rightarrow> schema"
  mergeSequentialParts :: "json \<Rightarrow> json \<Rightarrow> json \<Rightarrow> json"
  getModelWithKeys :: "string \<Rightarrow> ModelConfig option"

text \<open>The state the runner changes: how many model calls were made, and the delays slept
  (milliseconds, in order).\<close>

record world =
  calls :: nat
  slept :: "nat list"

section \<open>The attempt executor\<close>

definition RATE_LIMITED_PROVIDERS :: "string list" where
  "RATE_LIMITED_PROVIDERS = [''groq'', ''openrouter'']"

definition RATE_LIMIT_DELAY_MS :: nat where
  "RATE_LIMIT_DELAY_MS = 5000"

definition BACKOFF_BASE_MS :: nat where
  "BACKOFF_BASE_MS = 5000"

definition BACKOFF_MAX_RETRIES :: nat where
  "BACKOFF_MAX_RETRIES = 4"

definition isRateLimitError :: "thrown \<Rightarrow> bool" where
  "isRateLimitError error =
     (if err_kind error \<noteq> NotErrorK \<and>
         (let message = toLowerCase (err_message error)
          in str_includes message ''429'' \<or> str_includes message ''rate limit''
             \<or> str_includes message ''too many requests'')
      then True
      else (case err_status error of
              Some s \<Rightarrow> s = 429
            | None \<Rightarrow> False))"

text \<open>
  \<open>withExponentialBackoff fn retries\<close> (\<open>retries\<close> is the parameter \<open>maxRetries\<close> of
  the wrapper, which every caller leaves at \<open>BACKOFF_MAX_RETRIES\<close>): \<open>fn k\<close> is the outcome of the \<open>k\<close>-th
  invocation of the wrapped function by this call of the wrapper. The result comes with
  the delays slept between the invocations; the wrapper invoked the function once more
  than it slept. \<open>lastError\<close> is the variable of that name; the \<open>throw lastError\<close> after
  the loop is the last branch.
\<close>

function backoff_loop ::
  "(nat \<Rightarrow> thrown + 'a) \<Rightarrow> nat \<Rightarrow> nat \<Rightarrow> thrown option \<Rightarrow> nat list \<Rightarrow> (thrown + 'a) \<times> nat list"
where
  "backoff_loop fn retries attempt lastError delays =
     (if attempt \<le> retries then
        (case fn attempt of
           Inr v \<Rightarrow> (Inr v, delays)
         | Inl error \<Rightarrow>
             (if isRateLimitError error \<and> attempt < retries
              then backoff_loop fn retries (attempt + 1) (Some error)
                     (delays @ [BACKOFF_BASE_MS * 2 ^ attempt])
              else (Inl error, delays)))
      else (Inl (case lastError of None \<Rightarrow> js_undefined | Some e \<Rightarrow> e), delays))"
  by pat_completeness auto
termination
  by (relation "measure (\<lambda>(fn, retries, attempt, lastError, delays). Suc retries - attempt)") auto

definition withExponentialBackoff :: "(nat \<Rightarrow> thrown + 'a) \<Rightarrow> nat \<Rightarrow> (thrown + 'a) \<times> nat list" where
  "withExponentialBackoff fn retries = backoff_loop fn retries 0 None []"

text \<open>The executor's result: \<open>{ success, data?, raw, errors?, tokens? }\<close>.\<close>

record exec_result =
  success :: bool
  data :: "json option"
  raw :: string
  errors :: "ValidationError list option"
  tokens :: "(nat \<times> nat) option"

definition after_calls :: "world \<Rightarrow> nat list \<Rightarrow> world" where
  "after_calls w delays =
     w\<lparr>calls := calls w + Suc (length delays), slept := slept w @ delays\<rparr>"

definition sleep :: "nat \<Rightarrow> world \<Rightarrow> world" where
  "sleep ms w = w\<lparr>slept := slept w @ [ms]\<rparr>"

definition throttle :: "ModelConfig \<Rightarrow> world \<Rightarrow> world" where
  "throttle model w =
     (if provider model \<in> set RATE_LIMITED_PROVIDERS then sleep RATE_LIMIT_DELAY_MS w else w)"

text \<open>\<open>JSON.parse(cleaned)\<close> followed by \<open>schema.parse(parsed)\<close>, inside one \<open>try\<close>.\<close>

definition parse_and_validate :: "env \<Rightarrow> schema \<Rightarrow> string \<Rightarrow> thrown + json" where
  "parse_and_validate E schema cleaned =
     (case JSON_parse E cleaned of
        Inl error \<Rightarrow> Inl error
      | Inr parsed \<Rightarrow> schema parsed)"

definition runNonStrictAttempt ::
  "env \<Rightarrow> ModelConfig \<Rightarrow> chat_message list \<Rightarrow> schema \<Rightarrow> TestConfig \<Rightarrow> world
     \<Rightarrow> (thrown + exec_result) \<times> world"
where
  "runNonStrictAttempt E model messages schema config w =
     (case withExponentialBackoff
             (\<lambda>k. generateText E (calls w + k) (call_options_of model messages config))
             BACKOFF_MAX_RETRIES of
        (Inl error, delays) \<Rightarrow> (Inl error, after_calls w delays)
      | (Inr result, delays) \<Rightarrow>
          (let w' = throttle model (after_calls w delays);
               raw = gen_text result;
               cleaned = extractJson E raw;
               tokens = Some (or_zero (text_inputTokens result), or_zero (text_outputTokens result))
           in case parse_and_validate E schema cleaned of
                Inr validated \<Rightarrow>
                  (Inr \<lparr>success = True, data = Some validated, raw = raw, errors = None,
                        tokens = tokens\<rparr>, w')
              | Inl error \<Rightarrow>
                  (if err_kind error = ZodErrorK then
                     (Inr \<lparr>success = False, data = None, raw = raw,
                           errors = Some (parseZodErrors error), tokens = tokens\<rparr>, w')
                   else if err_kind error = SyntaxErrorK then
                     (Inr \<lparr>success = False, data = None, raw = raw,
                           errors = Some [\<lparr>path = [],
                                           message = ''Invalid JSON: '' @ err_message error,
                                           code = ''invalid_json''\<rparr>],
                           tokens = tokens\<rparr>, w')
                   else (Inl error, w'))))"

text \<open>\<open>rawText\<close> of the strict executor's \<open>catch\<close>: \<open>error.text || ''\<close> when the thrown
  value has a \<open>text\<close> property.\<close>

definition rawText_of :: "thrown \<Rightarrow> string" where
  "rawText_of error = (case err_text error of None \<Rightarrow> [] | Some t \<Rightarrow> t)"

definition runStrictAttempt ::
  "env \<Rightarrow> ModelConfig \<Rightarrow> chat_message list \<Rightarrow> schema \<Rightarrow> TestConfig \<Rightarrow> world
     \<Rightarrow> (thrown + exec_result) \<times> world"
where
  "runStrictAttempt E model messages schema config w =
     (case withExponentialBackoff
             (\<lambda>k. generateObject E (calls w + k) (call_options_of model messages config))
             BACKOFF_MAX_RETRIES of
        (Inr result, delays) \<Rightarrow>
          (Inr \<lparr>success = True, data = Some (gen_object result),
                raw = JSON_stringify E (gen_object result), errors = None,
                tokens = Some (or_zero (object_inputTokens result),
                               or_zero (object_outputTokens result))\<rparr>,
           throttle model (after_calls w delays))
      | (Inl error, delays) \<Rightarrow>
          (let rawText = rawText_of error in
           if err_kind error = ZodErrorK then
             (Inr \<lparr>success = False, data = None, raw = rawText,
                   errors = Some (parseZodErrors error), tokens = None\<rparr>,
              after_calls w delays)
           else
             (let errorMessage = err_message error in
              (Inr \<lparr>success = False, data = None,
                    raw = (if rawText \<noteq> [] then rawText else ''Error: '' @ errorMessage),
                    errors = Some [\<lparr>path = [], message = errorMessage, code = ''api_error''\<rparr>],
                    tokens = None\<rparr>,
               after_calls w delays))))"

text \<open>The executor of a scenario: scenarios 2 and 4 call the strict one.\<close>

definition runAttempt ::
  "bool \<Rightarrow> env \<Rightarrow> ModelConfig \<Rightarrow> chat_message list \<Rightarrow> schema \<Rightarrow> TestConfig \<Rightarrow> world
     \<Rightarrow> (thrown + exec_result) \<times> world"
where
  "runAttempt strict E model messages schema config w =
     (if strict then runStrictAttempt E model messages schema config w
      else runNonStrictAttempt E model messages schema config w)"

section \<open>The scenario runners\<close>

record AttemptResult =
  attemptNumber :: nat
  att_success :: bool
  inputTokens :: "nat option"
  outputTokens :: "nat option"
  prompt :: string
  rawResponse :: string
  parsedResponse :: "json option"
  validationErrors :: "ValidationError list"
  errorMessage :: "string option"

record StepResult =
  stepNumber :: nat
  stepName :: string
  step_success :: bool
  step_attempts :: "AttemptResult list"

record RunResult =
  runNumber :: nat
  run_success :: bool
  run_attempts :: "AttemptResult list"
  steps :: "StepResult list option"
  finalResponse :: "json option"

text \<open>\<open>result.errors || []\<close>\<close>

definition errors_or_empty :: "exec_result \<Rightarrow> ValidationError list" where
  "errors_or_empty result = (case errors result of None \<Rightarrow> [] | Some es \<Rightarrow> es)"

text \<open>The object literal \<open>attemptResult\<close>, the same in the four runners.\<close>

definition attemptResult_of :: "nat \<Rightarrow> string \<Rightarrow> exec_result \<Rightarrow> AttemptResult" where
  "attemptResult_of attempt promptText result =
     \<lparr>attemptNumber = attempt,
      att_success = success result,
      inputTokens = map_option fst (tokens result),
      outputTokens = map_option snd (tokens result),
      prompt = promptText,
      rawResponse = raw result,
      parsedResponse = (if success result then data result else None),
      validationErrors = errors_or_empty result,
      errorMessage = None\<rparr>"

definition role_name :: "role \<Rightarrow> string" where
  "role_name r = (case r of System \<Rightarrow> ''system'' | User \<Rightarrow> ''user'' | Assistant \<Rightarrow> ''assistant'')"

text \<open>\<open>messages.map(m => `[${m.role}] ${m.content}`).join('\n\n')\<close>\<close>

definition promptText_of :: "chat_message list \<Rightarrow> string" where
  "promptText_of messages =
     join [CHR 0x0A, CHR 0x0A] (map (\<lambda>m. ''['' @ role_name (role m) @ ''] '' @ content m) messages)"

definition msg :: "role \<Rightarrow> string \<Rightarrow> chat_message" where
  "msg r c = \<lparr>role = r, content = c\<rparr>"

definition base_messages :: "env \<Rightarrow> chat_message list" where
  "base_messages E =
     [msg System (systemPrompt E),
      msg User (''Here is a conversation between team members:'' @ [CHR 0x0A, CHR 0x0A]
                @ formatConversation E)]"

subsection \<open>One-shot scenarios (1 and 2)\<close>

text \<open>
  The attempt loop of one run. The messages are rebuilt at every attempt; from the second
  attempt on they end with the last attempt's raw response and the retry prompt. The
  loop returns the variables \<open>attempts\<close>, \<open>success\<close> and \<open>finalResponse\<close>; an error
  thrown by the executor leaves the loop, the run and the scenario.
\<close>

definition oneShot_messages :: "env \<Rightarrow> bool \<Rightarrow> nat \<Rightarrow> AttemptResult list \<Rightarrow> chat_message list" where
  "oneShot_messages E strict attempt attempts =
     base_messages E
     @ [msg User (if strict then oneShotStrictPrompt E else getOneShotPrompt E)]
     @ (if attempt > 1 \<and> length attempts > 0
        then (let lastAttempt = last attempts
              in [msg Assistant (rawResponse lastAttempt),
                  msg User (getRetryPrompt E (rawResponse lastAttempt)
                              (validationErrors lastAttempt))])
        else [])"

function oneShot_loop ::
  "env \<Rightarrow> bool \<Rightarrow> ModelConfig \<Rightarrow> TestConfig \<Rightarrow> nat \<Rightarrow> AttemptResult list \<Rightarrow> world
     \<Rightarrow> (thrown + AttemptResult list \<times> bool \<times> json option) \<times> world"
where
  "oneShot_loop E strict model config attempt attempts w =
     (if attempt \<le> maxRetries config + 1 then
        (let messages = oneShot_messages E strict attempt attempts;
             promptText = promptText_of messages
         in case runAttempt strict E model messages (ResponseSchema E) config w of
              (Inl error, w') \<Rightarrow> (Inl error, w')
            | (Inr result, w') \<Rightarrow>
                (let attempts' = attempts @ [attemptResult_of attempt promptText result]
                 in if success result then (Inr (attempts', True, data result), w')
                    else oneShot_loop E strict model config (attempt + 1) attempts' w'))
      else (Inr (attempts, False, None), w))"
  by pat_completeness auto
termination
  by (relation "measure (\<lambda>(E, strict, model, config, attempt, attempts, w).
                           maxRetries config + 2 - attempt)") auto

function oneShot_runs ::
  "env \<Rightarrow> bool \<Rightarrow> ModelConfig \<Rightarrow> TestConfig \<Rightarrow> nat \<Rightarrow> RunResult list \<Rightarrow> world
     \<Rightarrow> (thrown + RunResult list) \<times> world"
where
  "oneShot_runs E strict model config runNum runs w =
     (if runNum \<le> runsPerScenario config then
        (case oneShot_loop E strict model config 1 [] w of
           (Inl error, w') \<Rightarrow> (Inl error, w')
         | (Inr (attempts, ok, final), w') \<Rightarrow>
             oneShot_runs E strict model config (runNum + 1)
               (runs @ [\<lparr>runNumber = runNum, run_success = ok, run_attempts = attempts,
                         steps = None, finalResponse = final\<rparr>]) w')
      else (Inr runs, w))"
  by pat_completeness auto
termination
  by (relation "measure (\<lambda>(E, strict, model, config, runNum, runs, w).
                           runsPerScenario config + 1 - runNum)") auto

definition runScenario1 ::
  "env \<Rightarrow> ModelConfig \<Rightarrow> TestConfig \<Rightarrow> world \<Rightarrow> (thrown + RunResult list) \<times> world" where
  "runScenario1 E model config w = oneShot_runs E False model config 1 [] w"

definition runScenario2 ::
  "env \<Rightarrow> ModelConfig \<Rightarrow> TestConfig \<Rightarrow> world \<Rightarrow> (thrown + RunResult list) \<times> world" where
  "runScenario2 E model config w = oneShot_runs E True model config 1 [] w"

subsection \<open>Sequential scenarios (3 and 4)\<close>

text \<open>
  The attempt loop of one step. Here the message list grows: a failed attempt appends
  its raw response and the retry prompt. The loop returns \<open>step.attempts\<close>,
  \<open>step.success\<close> and the step's result (\<open>null\<close> is \<open>None\<close>).
\<close>

function step_loop ::
  "env \<Rightarrow> bool \<Rightarrow> ModelConfig \<Rightarrow> TestConfig \<Rightarrow> schema \<Rightarrow> nat \<Rightarrow> chat_message list
     \<Rightarrow> AttemptResult list \<Rightarrow> world
     \<Rightarrow> (thrown + AttemptResult list \<times> bool \<times> json option) \<times> world"
where
  "step_loop E strict model config schema attempt messages attempts w =
     (if attempt \<le> maxRetries config + 1 then
        (let promptText = promptText_of messages
         in case runAttempt strict E model messages schema config w of
              (Inl error, w') \<Rightarrow> (Inl error, w')
            | (Inr result, w') \<Rightarrow>
                (let attempts' = attempts @ [attemptResult_of attempt promptText result]
                 in if success result then (Inr (attempts', True, data result), w')
                    else step_loop E strict model config schema (attempt + 1)
                           (messages @ [msg Assistant (raw result),
                                        msg User (getRetryPrompt E (raw result)
                                                    (errors_or_empty result))])
                           attempts' w'))
      else (Inr (attempts, False, None), w))"
  by pat_completeness auto
termination
  by (relation "measure (\<lambda>(E, strict, model, config, schema, attempt, messages, attempts, w).
                           maxRetries config + 2 - attempt)") auto

definition step1_messages :: "env \<Rightarrow> bool \<Rightarrow> chat_message list" where
  "step1_messages E strict = base_messages E @ [msg User (sequentialPrompt E 1 strict)]"

definition step2_messages :: "env \<Rightarrow> bool \<Rightarrow> json \<Rightarrow> chat_message list" where
  "step2_messages E strict step1Result =
     base_messages E
     @ [msg Assistant (JSON_stringify E step1Result), msg User (sequentialPrompt E 2 strict)]"

definition step3_messages :: "env \<Rightarrow> bool \<Rightarrow> json \<Rightarrow> json \<Rightarrow> chat_message list" where
  "step3_messages E strict step1Result step2Result =
     base_messages E
     @ [msg Assistant (JSON_stringify E step1Result),
        msg Assistant (JSON_stringify E step2Result),
        msg User (sequentialPrompt E 3 strict)]"

definition mkStep :: "nat \<Rightarrow> string \<Rightarrow> bool \<Rightarrow> AttemptResult list \<Rightarrow> StepResult" where
  "mkStep n name ok attempts =
     \<lparr>stepNumber = n, stepName = name, step_success = ok, step_attempts = attempts\<rparr>"

text \<open>
  The body of the \<open>try\<close> block of one run. It returns the thrown value, if any, and the
  variables \<open>steps\<close>, \<open>success\<close> and \<open>finalResponse\<close> as they are when the block is left.
  \<open>if (!stepNResult) throw new Error('Step N failed')\<close> is the test \<open>falsy_opt\<close>.
\<close>

record run_vars =
  v_steps :: "StepResult list"
  v_success :: bool
  v_finalResponse :: "json option"

definition thrown_with :: "thrown \<Rightarrow> StepResult list \<Rightarrow> thrown option \<times> run_vars" where
  "thrown_with error ss = (Some error, \<lparr>v_steps = ss, v_success = False, v_finalResponse = None\<rparr>)"

definition seq_merge ::
  "env \<Rightarrow> StepResult list \<Rightarrow> json \<Rightarrow> json \<Rightarrow> json \<Rightarrow> thrown option \<times> run_vars" where
  "seq_merge E ss step1Result step2Result step3Result =
     (let merged = mergeSequentialParts E step1Result step2Result step3Result
      in case ResponseSchema E merged of
           Inl error \<Rightarrow> thrown_with error ss
         | Inr validated \<Rightarrow>
             (None, \<lparr>v_steps = ss, v_success = True, v_finalResponse = Some merged\<rparr>))"

definition seq_step3 ::
  "env \<Rightarrow> bool \<Rightarrow> ModelConfig \<Rightarrow> TestConfig \<Rightarrow> StepResult list \<Rightarrow> json \<Rightarrow> json \<Rightarrow> world
     \<Rightarrow> (thrown option \<times> run_vars) \<times> world"
where
  "seq_step3 E strict model config ss step1Result step2Result w =
     (case step_loop E strict model config (SequentialPartSchema E 3) 1
             (step3_messages E strict step1Result step2Result) [] w of
        (Inl error, w') \<Rightarrow> (thrown_with error ss, w')
      | (Inr (attempts, ok, step3Result), w') \<Rightarrow>
          (let ss' = ss @ [mkStep 3 ''AI Config'' ok attempts]
           in if falsy_opt step3Result then (thrown_with (new_Error ''Step 3 failed'') ss', w')
              else (case step3Result of
                      None \<Rightarrow> (thrown_with (new_Error ''Step 3 failed'') ss', w')
                    | Some r3 \<Rightarrow> (seq_merge E ss' step1Result step2Result r3, w'))))"

definition seq_step2 ::
  "env \<Rightarrow> bool \<Rightarrow> ModelConfig \<Rightarrow> TestConfig \<Rightarrow> StepResult list \<Rightarrow> json \<Rightarrow> world
     \<Rightarrow> (thrown option \<times> run_vars) \<times> world"
where
  "seq_step2 E strict model config ss step1Result w =
     (case step_loop E strict model config (SequentialPartSchema E 2) 1
             (step2_messages E strict step1Result) [] w of
        (Inl error, w') \<Rightarrow> (thrown_with error ss, w')
      | (Inr (attempts, ok, step2Result), w') \<Rightarrow>
          (let ss' = ss @ [mkStep 2 ''Details'' ok attempts]
           in if falsy_opt step2Result then (thrown_with (new_Error ''Step 2 failed'') ss', w')
              else (case step2Result of
                      None \<Rightarrow> (thrown_with (new_Error ''Step 2 failed'') ss', w')
                    | Some r2 \<Rightarrow> seq_step3 E strict model config ss' step1Result r2 w')))"

definition seq_try ::
  "env \<Rightarrow> bool \<Rightarrow> ModelConfig \<Rightarrow> TestConfig \<Rightarrow> world \<Rightarrow> (thrown option \<times> run_vars) \<times> world"
where
  "seq_try E strict model config w =
     (case step_loop E strict model config (SequentialPartSchema E 1) 1
             (step1_messages E strict) [] w of
        (Inl error, w') \<Rightarrow> (thrown_with error [], w')
      | (Inr (attempts, ok, step1Result), w') \<Rightarrow>
          (let ss' = [mkStep 1 ''Recommendation'' ok attempts]
           in if falsy_opt step1Result then (thrown_with (new_Error ''Step 1 failed'') ss', w')
              else (case step1Result of
                      None \<Rightarrow> (thrown_with (new_Error ''Step 1 failed'') ss', w')
                    | Some r1 \<Rightarrow> seq_step2 E strict model config ss' r1 w')))"

text \<open>One iteration of the run loop: the \<open>try\<close> block, the empty \<open>catch\<close>, and the
  \<open>runResult\<close> built from the variables.\<close>

definition seq_run ::
  "env \<Rightarrow> bool \<Rightarrow> ModelConfig \<Rightarrow> TestConfig \<Rightarrow> nat \<Rightarrow> world \<Rightarrow> RunResult \<times> world" where
  "seq_run E strict model config runNum w =
     (case seq_try E strict model config w of
        ((caught, vars), w') \<Rightarrow>
          (\<lparr>runNumber = runNum, run_success = v_success vars, run_attempts = [],
            steps = Some (v_steps vars), finalResponse = v_finalResponse vars\<rparr>, w'))"

function seq_runs ::
  "env \<Rightarrow> bool \<Rightarrow> ModelConfig \<Rightarrow> TestConfig \<Rightarrow> nat \<Rightarrow> RunResult list \<Rightarrow> world
     \<Rightarrow> (thrown + RunResult list) \<times> world"
where
  "seq_runs E strict model config runNum runs w =
     (if runNum \<le> runsPerScenario config then
        (case seq_run E strict model config runNum w of
           (runResult, w') \<Rightarrow>
             seq_runs E strict model config (runNum + 1) (runs @ [runResult]) w')
      else (Inr runs, w))"
  by pat_completeness auto
termination
  by (relation "measure (\<lambda>(E, strict, model, config, runNum, runs, w).
                           runsPerScenario config + 1 - runNum)") auto

definition runScenario3 ::
  "env \<Rightarrow> ModelConfig \<Rightarrow> TestConfig \<Rightarrow> world \<Rightarrow> (thrown + RunResult list) \<times> world" where
  "runScenario3 E model config w = seq_runs E False model config 1 [] w"

definition runScenario4 ::
  "env \<Rightarrow> ModelConfig \<Rightarrow> TestConfig \<Rightarrow> world \<Rightarrow> (thrown + RunResult list) \<times> world" where
  "runScenario4 E model config w = seq_runs E True model config 1 [] w"

section \<open>The scenario summary\<close>

text \<open>
  Modelled from the spec: \<open>calculateScenarioSummary\<close> of src/lib/storage.ts, which is not
  among the sources; only its tests (src/__tests__/storage.test.ts) and its callers are.
  The definitions follow section 4.4 of the specification: a run's successful attempt
  index is the 0-based index of its first successful attempt; for a sequential run it is
  the sum across its steps of each step's index; a run with no successful attempt has
  none. The average duration is left out with the clock.
\<close>

record ScenarioSummary =
  successRate :: rat
  firstAttemptSuccessRate :: rat
  afterRetry1SuccessRate :: rat
  afterRetry2SuccessRate :: rat
  afterRetry3SuccessRate :: rat
  averageAttempts :: rat
  averageAttemptsPerSuccess :: rat
  averageTokensPerSuccess :: rat
  totalTokensUsed :: nat

text \<open>\<open>attempts.findIndex(a => a.success)\<close>, with \<open>None\<close> for \<open>-1\<close>.\<close>

fun findIndex_success :: "AttemptResult list \<Rightarrow> nat option" where
  "findIndex_success [] = None"
| "findIndex_success (a # as) =
     (if att_success a then Some 0 else map_option Suc (findIndex_success as))"

text \<open>The sum of the steps' indices; none when there is no step or when a step has no
  successful attempt.\<close>

fun sum_index :: "nat option list \<Rightarrow> nat option" where
  "sum_index [] = None"
| "sum_index [x] = x"
| "sum_index (x # y # ys) =
     (case x of
        None \<Rightarrow> None
      | Some i \<Rightarrow> (case sum_index (y # ys) of None \<Rightarrow> None | Some j \<Rightarrow> Some (i + j)))"

definition step_indices :: "StepResult list \<Rightarrow> nat option list" where
  "step_indices ss = map (\<lambda>s. findIndex_success (step_attempts s)) ss"

definition successAttemptIndex :: "bool \<Rightarrow> RunResult \<Rightarrow> nat option" where
  "successAttemptIndex isSequential run =
     (case (isSequential, steps run) of
        (True, Some ss) \<Rightarrow> sum_index (step_indices ss)
      | _ \<Rightarrow> findIndex_success (run_attempts run))"

text \<open>Whether a run is in the numerator of the rate at retry depth \<open>d\<close>
  (\<open>firstAttemptSuccessRate\<close> is depth 0).\<close>

definition counts_toward :: "nat \<Rightarrow> bool \<Rightarrow> RunResult \<Rightarrow> bool" where
  "counts_toward d isSequential run =
     (case successAttemptIndex isSequential run of None \<Rightarrow> False | Some i \<Rightarrow> i \<le> d)"

definition all_attempts :: "bool \<Rightarrow> RunResult \<Rightarrow> AttemptResult list" where
  "all_attempts isSequential run =
     (case (isSequential, steps run) of
        (True, Some ss) \<Rightarrow> concat (map step_attempts ss)
      | _ \<Rightarrow> run_attempts run)"

definition attempt_tokens :: "AttemptResult \<Rightarrow> nat" where
  "attempt_tokens a = or_zero (inputTokens a) + or_zero (outputTokens a)"

definition run_tokens :: "bool \<Rightarrow> RunResult \<Rightarrow> nat" where
  "run_tokens isSequential run = sum_list (map attempt_tokens (all_attempts isSequential run))"

definition percent :: "nat \<Rightarrow> nat \<Rightarrow> rat" where
  "percent k n = 100 * of_nat k / of_nat n"

definition average :: "nat list \<Rightarrow> rat" where
  "average xs = (if xs = [] then 0 else of_nat (sum_list xs) / of_nat (length xs))"

definition afterRetryRate :: "nat \<Rightarrow> bool \<Rightarrow> RunResult list \<Rightarrow> rat" where
  "afterRetryRate d isSequential rs =
     percent (length (filter (counts_toward d isSequential) rs)) (length rs)"

definition calculateScenarioSummary :: "RunResult list \<Rightarrow> bool \<Rightarrow> ScenarioSummary" where
  "calculateScenarioSummary rs isSequential =
     (if rs = [] then
        \<lparr>successRate = 0, firstAttemptSuccessRate = 0, afterRetry1SuccessRate = 0,
         afterRetry2SuccessRate = 0, afterRetry3SuccessRate = 0, averageAttempts = 0,
         averageAttemptsPerSuccess = 0, averageTokensPerSuccess = 0, totalTokensUsed = 0\<rparr>
      else
        (let successfulRuns = filter run_success rs
         in \<lparr>successRate = percent (length successfulRuns) (length rs),
             firstAttemptSuccessRate = afterRetryRate 0 isSequential rs,
             afterRetry1SuccessRate = afterRetryRate 1 isSequential rs,
             afterRetry2SuccessRate = afterRetryRate 2 isSequential rs,
             afterRetry3SuccessRate = afterRetryRate 3 isSequential rs,
             averageAttempts = average (map (\<lambda>r. length (all_attempts isSequential r)) rs),
             averageAttemptsPerSuccess =
               average (map (\<lambda>r. length (all_attempts isSequential r)) successfulRuns),
             averageTokensPerSuccess = average (map (run_tokens isSequential) successfulRuns),
             totalTokensUsed = sum_list (map (run_tokens isSequential) rs)\<rparr>))"

section \<open>The suite orchestrator\<close>

record ScenarioResult =
  runs :: "RunResult list"
  summary :: ScenarioSummary

text \<open>\<open>Number.prototype.toString\<close> on an integer, for the message of the error.\<close>

function nat_toString :: "nat \<Rightarrow> string" where
  "nat_toString n =
     (if n < 10 then [''0123456789'' ! n]
      else nat_toString (n div 10) @ [''0123456789'' ! (n mod 10)])"
  by pat_completeness auto
termination
  by (relation "measure id") auto

definition Number_toString :: "int \<Rightarrow> string" where
  "Number_toString i = (if i < 0 then ''-'' @ nat_toString (nat (- i)) else nat_toString (nat i))"

text \<open>The \<open>switch\<close> of \<open>runModelTests\<close>.\<close>

definition dispatch ::
  "env \<Rightarrow> ModelConfig \<Rightarrow> TestConfig \<Rightarrow> int \<Rightarrow> world \<Rightarrow> (thrown + RunResult list) \<times> world" where
  "dispatch E model config scenario w =
     (if scenario = 1 then runScenario1 E model config w
      else if scenario = 2 then runScenario2 E model config w
      else if scenario = 3 then runScenario3 E model config w
      else if scenario = 4 then runScenario4 E model config w
      else (Inl (new_Error (''Invalid scenario: '' @ Number_toString scenario)), w))"

text \<open>
  The loop over the requested scenarios. The result object is keyed by
  \<open>scenario.toString()\<close>; the map here is keyed by the number itself.
\<close>

fun scenarios_loop ::
  "env \<Rightarrow> ModelConfig \<Rightarrow> TestConfig \<Rightarrow> int list \<Rightarrow> (int \<rightharpoonup> ScenarioResult) \<Rightarrow> world
     \<Rightarrow> (thrown + (int \<rightharpoonup> ScenarioResult)) \<times> world"
where
  "scenarios_loop E model config [] results w = (Inr results, w)"
| "scenarios_loop E model config (scenario # rest) results w =
     (let isStrictScenario = (scenario = 2 \<or> scenario = 4)
      in if isStrictScenario \<and> \<not> supportsStrictMode model
         then scenarios_loop E model config rest results w
         else (case dispatch E model config scenario w of
                 (Inl error, w') \<Rightarrow> (Inl error, w')
               | (Inr rs, w') \<Rightarrow>
                   (let isSequential = (scenario = 3 \<or> scenario = 4)
                    in scenarios_loop E model config rest
                         (results(scenario \<mapsto>
                            \<lparr>runs = rs, summary = calculateScenarioSummary rs isSequential\<rparr>))
                         w')))"

definition runModelTests ::
  "env \<Rightarrow> string \<Rightarrow> int list \<Rightarrow> TestConfig \<Rightarrow> world
     \<Rightarrow> (thrown + (int \<rightharpoonup> ScenarioResult)) \<times> world"
where
  "runModelTests E modelId scenarios config w =
     (case getModelWithKeys E modelId of
        None \<Rightarrow> (Inl (new_Error (''Model not found or missing API key: '' @ modelId)), w)
      | Some model \<Rightarrow> scenarios_loop E model config scenarios Map.empty w)"

section \<open>Starting a run (src/app/api/run/route.ts)\<close>

text \<open>
  The table \<open>activeRuns\<close> is a \<open>Map\<close> from run id to entry, kept here as an
  association list in insertion order. Of an entry the model keeps the status, the
  validated models and scenarios and the error text; the progress grid and the result
  file under construction are left out. \<open>createTestRun\<close> belongs to the storage module;
  what the route needs of it is the fresh id, taken from the generator \<open>uuid\<close>: the
  \<open>k\<close>-th run created by the process gets the id \<open>uuid k\<close>.
\<close>

datatype run_status = Running | Complete | Cancelled | Errored

record ActiveRun =
  status :: run_status
  run_models :: "string list"
  run_scenarios :: "int list"
  run_error :: "string option"

type_synonym active_runs = "(string \<times> ActiveRun) list"

fun map_set :: "string \<Rightarrow> ActiveRun \<Rightarrow> active_runs \<Rightarrow> active_runs" where
  "map_set k v [] = [(k, v)]"
| "map_set k v ((k', v') # kvs) = (if k' = k then (k, v) # kvs else (k', v') # map_set k v kvs)"

definition map_delete :: "string \<Rightarrow> active_runs \<Rightarrow> active_runs" where
  "map_delete k kvs = filter (\<lambda>kv. fst kv \<noteq> k) kvs"

definition runningRuns :: "active_runs \<Rightarrow> ActiveRun list" where
  "runningRuns tbl = filter (\<lambda>r. status r = Running) (map snd tbl)"

record http_reply =
  http_status :: nat
  reply_error :: "string option"
  reply_runId :: "string option"

definition error_reply :: "nat \<Rightarrow> string \<Rightarrow> http_reply" where
  "error_reply st m = \<lparr>http_status = st, reply_error = Some m, reply_runId = None\<rparr>"

record request_body =
  body_models :: "string list option"
  body_scenarios :: "int list option"
  body_runsPerScenario :: "nat option"
  body_maxRetries :: "nat option"

text \<open>A request: its headers, and what \<open>await request.json()\<close> settles to.\<close>

record post_request =
  headers :: "string \<Rightarrow> string option"
  json_body :: "thrown + request_body"

record route_env =
  modelDefinitions :: "ModelConfig list"
  process_env :: "string \<Rightarrow> string option"
  uuid :: "nat \<Rightarrow> string"

definition getModelDefinition :: "route_env \<Rightarrow> string \<Rightarrow> ModelConfig option" where
  "getModelDefinition R ident = find (\<lambda>m. model_id m = ident) (modelDefinitions R)"

text \<open>\<open>!!(a || b)\<close> on two optional strings.\<close>

definition nonempty_str :: "string option \<Rightarrow> bool" where
  "nonempty_str x = (case x of None \<Rightarrow> False | Some v \<Rightarrow> v \<noteq> [])"

definition hasKeyForProvider :: "route_env \<Rightarrow> post_request \<Rightarrow> string \<Rightarrow> bool" where
  "hasKeyForProvider R req p =
     (if p = ''openai'' then
        nonempty_str (headers req ''x-openai-api-key'') \<or> nonempty_str (process_env R ''OPENAI_API_KEY'')
      else if p = ''anthropic'' then
        nonempty_str (headers req ''x-anthropic-api-key'')
        \<or> nonempty_str (process_env R ''ANTHROPIC_API_KEY'')
      else if p = ''google'' then
        nonempty_str (headers req ''x-google-api-key'')
        \<or> nonempty_str (process_env R ''GOOGLE_GENERATIVE_AI_API_KEY'')
      else if p = ''groq'' then
        nonempty_str (headers req ''x-groq-api-key'') \<or> nonempty_str (process_env R ''GROQ_API_KEY'')
      else if p = ''openrouter'' then
        nonempty_str (headers req ''x-openrouter-api-key'')
        \<or> nonempty_str (process_env R ''OPENROUTER_API_KEY'')
      else False)"

text \<open>
  \<open>POST\<close> runs without interruption up to \<open>await request.json()\<close>: \<open>POST_guard\<close> is that
  first part, the check of the table (\<open>Some\<close> the 409 reply, or \<open>None\<close> when the handler
  goes on to wait for the body). \<open>POST_rest\<close> is the continuation once the body has
  settled; \<open>n\<close> counts the runs created so far.
\<close>

definition POST_guard :: "active_runs \<Rightarrow> http_reply option" where
  "POST_guard tbl =
     (if length (runningRuns tbl) > 0
      then Some (error_reply 409
             ''A test is already running. Please wait for it to complete or cancel it.'')
      else None)"

definition POST_rest ::
  "route_env \<Rightarrow> post_request \<Rightarrow> nat \<Rightarrow> active_runs \<Rightarrow> http_reply \<times> active_runs \<times> nat" where
  "POST_rest R req n tbl =
     (case json_body req of
        Inl error \<Rightarrow> (error_reply 500 ''Failed to start test run'', tbl, n)
      | Inr body \<Rightarrow>
          (let modelIds = (case body_models body of
                             None \<Rightarrow> map model_id (modelDefinitions R)
                           | Some ms \<Rightarrow> ms);
               scenarios = (case body_scenarios body of None \<Rightarrow> [1, 2, 3, 4] | Some xs \<Rightarrow> xs);
               validModelIds =
                 filter (\<lambda>ident. case getModelDefinition R ident of
                                    None \<Rightarrow> False
                                  | Some d \<Rightarrow> hasKeyForProvider R req (provider d)) modelIds
           in if length validModelIds = 0 then
                (error_reply 400
                   ''No valid models specified or missing API keys. Configure API keys in Settings.'',
                 tbl, n)
              else
                (let validScenarios = filter (\<lambda>s. s \<ge> 1 \<and> s \<le> 4) scenarios
                 in if length validScenarios = 0 then
                      (error_reply 400 ''No valid scenarios specified'', tbl, n)
                    else
                      (let runId = uuid R n
                       in (\<lparr>http_status = 200, reply_error = None, reply_runId = Some runId\<rparr>,
                           map_set runId
                             \<lparr>status = Running, run_models = validModelIds,
                              run_scenarios = validScenarios, run_error = None\<rparr> tbl,
                           n + 1)))))"

text \<open>
  The server between events. A handler that passed the check waits in \<open>suspended\<close> for
  its body; other handlers run meanwhile. The events: a request arrives and its handler
  runs to the \<open>await\<close>; the body of a suspended handler settles and the handler runs to
  its end; the suite of a run settles (\<open>runTestsInBackground\<close> sets the status
  \<open>complete\<close>, or \<open>error\<close> with the message of the rejection); the timer set then
  deletes the entry.
\<close>

record server =
  activeRuns :: active_runs
  created :: nat
  suspended :: "(nat \<times> post_request) list"
  replies :: "(nat \<times> http_reply) list"

datatype event =
    Arrives nat post_request
  | BodySettled nat
  | SuiteSettled string "string option"
  | TimerFired string

definition set_status :: "string \<Rightarrow> run_status \<Rightarrow> string option \<Rightarrow> active_runs \<Rightarrow> active_runs" where
  "set_status k st err tbl =
     map (\<lambda>kv. if fst kv = k then (k, (snd kv)\<lparr>status := st, run_error := err\<rparr>) else kv) tbl"

fun handle :: "route_env \<Rightarrow> event \<Rightarrow> server \<Rightarrow> server" where
  "handle R (Arrives tag req) s =
     (case POST_guard (activeRuns s) of
        Some reply \<Rightarrow> s\<lparr>replies := replies s @ [(tag, reply)]\<rparr>
      | None \<Rightarrow> s\<lparr>suspended := suspended s @ [(tag, req)]\<rparr>)"
| "handle R (BodySettled tag) s =
     (case map_of (suspended s) tag of
        None \<Rightarrow> s
      | Some req \<Rightarrow>
          (case POST_rest R req (created s) (activeRuns s) of
             (reply, tbl, n) \<Rightarrow>
               s\<lparr>activeRuns := tbl, created := n,
                 suspended := filter (\<lambda>p. fst p \<noteq> tag) (suspended s),
                 replies := replies s @ [(tag, reply)]\<rparr>))"
| "handle R (SuiteSettled runId rejected) s =
     s\<lparr>activeRuns :=
         (case rejected of
            None \<Rightarrow> set_status runId Complete None (activeRuns s)
          | Some m \<Rightarrow> set_status runId Errored (Some m) (activeRuns s))\<rparr>"
| "handle R (TimerFired runId) s = s\<lparr>activeRuns := map_delete runId (activeRuns s)\<rparr>"

fun handle_all :: "route_env \<Rightarrow> event list \<Rightarrow> server \<Rightarrow> server" where
  "handle_all R [] s = s"
| "handle_all R (e # es) s = handle_all R es (handle R e s)"

definition server0 :: server where
  "server0 = \<lparr>activeRuns = [], created = 0, suspended = [], replies = []\<rparr>"

section \<open>Properties stated about the runner\<close>

text \<open>An outcome of the wrapped function that the backoff wrapper retries.\<close>

definition rate_limited :: "thrown + 'a \<Rightarrow> bool" where
  "rate_limited r = (case r of Inl error \<Rightarrow> isRateLimitError error | Inr v \<Rightarrow> False)"

text \<open>The first \<open>k\<close> delays: the base delay, doubled at each retry.\<close>

definition backoff_delays :: "nat \<Rightarrow> nat list" where
  "backoff_delays k = map (\<lambda>i. BACKOFF_BASE_MS * 2 ^ i) [0..<k]"

text \<open>
  The error that the \<open>catch\<close> block of an attempt receives, if any: in strict mode
  whatever the backoff wrapper throws; in non-strict mode whatever parsing and validating
  the text throws (what the wrapper throws there is outside the \<open>try\<close>).
\<close>

definition caught_error ::
  "bool \<Rightarrow> env \<Rightarrow> ModelConfig \<Rightarrow> chat_message list \<Rightarrow> schema \<Rightarrow> TestConfig \<Rightarrow> world
     \<Rightarrow> thrown option"
where
  "caught_error strict E model messages schema config w =
     (if strict then
        (case fst (withExponentialBackoff
                     (\<lambda>k. generateObject E (calls w + k) (call_options_of model messages config))
                     BACKOFF_MAX_RETRIES) of
           Inl error \<Rightarrow> Some error
         | Inr result \<Rightarrow> None)
      else
        (case fst (withExponentialBackoff
                     (\<lambda>k. generateText E (calls w + k) (call_options_of model messages config))
                     BACKOFF_MAX_RETRIES) of
           Inl error \<Rightarrow> None
         | Inr result \<Rightarrow>
             (case parse_and_validate E schema (extractJson E (gen_text result)) of
                Inl error \<Rightarrow> Some error
              | Inr validated \<Rightarrow> None)))"

text \<open>The error list that a caught error should yield: the issues of a \<open>ZodError\<close>; for any
  other error the single \<open>invalid_json\<close> entry in non-strict mode and the single
  \<open>api_error\<close> entry in strict mode.\<close>

definition failure_entries :: "bool \<Rightarrow> thrown \<Rightarrow> ValidationError list" where
  "failure_entries strict error =
     (if err_kind error = ZodErrorK then err_issues error
      else if strict then [\<lparr>path = [], message = err_message error, code = ''api_error''\<rparr>]
      else [\<lparr>path = [], message = ''Invalid JSON: '' @ err_message error,
              code = ''invalid_json''\<rparr>])"

text \<open>What an attempt loop leaves behind: at most \<open>maxRetries + 1\<close> attempts numbered from
  1, none but the last successful, and the success flag set exactly when one succeeded.\<close>

definition attempt_loop_ok :: "TestConfig \<Rightarrow> AttemptResult list \<Rightarrow> bool \<Rightarrow> bool" where
  "attempt_loop_ok config as ok =
     (length as \<le> maxRetries config + 1 \<and>
      map attemptNumber as = [1..<Suc (length as)] \<and>
      (\<forall>a \<in> set (butlast as). \<not> att_success a) \<and>
      (ok \<longleftrightarrow> (\<exists>a \<in> set as. att_success a)))"

definition loop_inv :: "TestConfig \<Rightarrow> nat \<Rightarrow> AttemptResult list \<Rightarrow> bool" where
  "loop_inv config attempt attempts =
     (1 \<le> attempt \<and> attempt \<le> maxRetries config + 2 \<and>
      map attemptNumber attempts = [1..<attempt] \<and>
      (\<forall>a \<in> set attempts. \<not> att_success a))"

definition no_errorMessage :: "AttemptResult list \<Rightarrow> bool" where
  "no_errorMessage as = (\<forall>a \<in> set as. errorMessage a = None)"

text \<open>The record of a failed sequential run, and what it is for the run loop to record a
  run and go on: the iteration yields the run, and the loop continues from the next run
  number with the run appended.\<close>

definition failed_run :: "nat \<Rightarrow> StepResult list \<Rightarrow> RunResult" where
  "failed_run n ss =
     \<lparr>runNumber = n, run_success = False, run_attempts = [], steps = Some ss,
      finalResponse = None\<rparr>"

definition recorded ::
  "env \<Rightarrow> bool \<Rightarrow> ModelConfig \<Rightarrow> TestConfig \<Rightarrow> nat \<Rightarrow> world \<Rightarrow> RunResult \<Rightarrow> world \<Rightarrow> bool" where
  "recorded E strict model config n w run w' =
     (seq_run E strict model config n w = (run, w') \<and>
      (\<forall>rs. n \<le> runsPerScenario config \<longrightarrow>
         seq_runs E strict model config n rs w =
         seq_runs E strict model config (n + 1) (rs @ [run]) w') \<and>
      (\<forall>rs. \<exists>rs' w''. seq_runs E strict model config n rs w = (Inr rs', w'')))"

section \<open>Concrete inputs\<close>

text \<open>Two models of src/lib/models.ts, a small configuration, and collaborators simple
  enough to evaluate: the provider is given by the outcomes of its calls in order.\<close>

definition gpt4o :: ModelConfig where
  "gpt4o = \<lparr>model_id = ''openai-gpt4o'', model_name = ''GPT-4o'', provider = ''openai'',
            supportsStrictMode = True, isReasoningModel = False\<rparr>"

definition llama :: ModelConfig where
  "llama = \<lparr>model_id = ''groq-llama-3.3-70b'', model_name = ''Llama 3.3 70B'',
            provider = ''groq'', supportsStrictMode = False, isReasoningModel = False\<rparr>"

definition one_retry :: TestConfig where
  "one_retry = \<lparr>temperature = 1 / 10, maxRetries = 1, runsPerScenario = 1\<rparr>"

definition network_error :: thrown where
  "network_error = new_Error ''socket hang up''"

definition rate_error :: thrown where
  "rate_error = new_Error ''HTTP 429: Too Many Requests''"

definition syntax_error :: thrown where
  "syntax_error =
     \<lparr>err_kind = SyntaxErrorK, err_message = ''Unexpected token'', err_status = None,
      err_text = None, err_issues = []\<rparr>"

definition zod_error :: thrown where
  "zod_error =
     \<lparr>err_kind = ZodErrorK, err_message = ''invalid'', err_status = None, err_text = None,
      err_issues = [\<lparr>path = [''recommendation''], message = ''Required'',
                     code = ''invalid_type''\<rparr>]\<rparr>"

definition empty_zod_error :: thrown where
  "empty_zod_error =
     \<lparr>err_kind = ZodErrorK, err_message = ''[]'', err_status = None, err_text = None,
      err_issues = []\<rparr>"

definition ok_text :: text_result where
  "ok_text = \<lparr>gen_text = ''{}'', text_inputTokens = Some 100, text_outputTokens = Some 50\<rparr>"

definition ok_object :: object_result where
  "ok_object = \<lparr>gen_object = JObj [], object_inputTokens = Some 100, object_outputTokens = Some 50\<rparr>"

definition demo_env ::
  "(nat \<Rightarrow> thrown + text_result) \<Rightarrow> (nat \<Rightarrow> thrown + object_result) \<Rightarrow> schema \<Rightarrow> env" where
  "demo_env texts objects response =
     \<lparr>generateText = (\<lambda>k opts. texts k),
      generateObject = (\<lambda>k opts. objects k),
      JSON_parse = (\<lambda>s. if s = ''{}'' then Inr (JObj []) else Inl syntax_error),
      JSON_stringify = (\<lambda>j. ''{}''),
      extractJson = (\<lambda>s. s),
      getRetryPrompt = (\<lambda>r es. ''retry''),
      systemPrompt = ''system'',
      formatConversation = ''conversation'',
      getOneShotPrompt = ''one-shot'',
      oneShotStrictPrompt = ''one-shot strict'',
      sequentialPrompt = (\<lambda>n strict. ''step''),
      ResponseSchema = response,
      SequentialPartSchema = (\<lambda>n j. Inr j),
      mergeSequentialParts = (\<lambda>a b c. JArr [a, b, c]),
      getModelWithKeys = (\<lambda>ident. if ident = model_id llama then Some llama
                                     else if ident = model_id gpt4o then Some gpt4o else None)\<rparr>"

text \<open>A provider whose first \<open>n\<close> calls succeed and whose later calls fail with a network
  error.\<close>

definition objects_until :: "nat \<Rightarrow> nat \<Rightarrow> thrown + object_result" where
  "objects_until n k = (if k < n then Inr ok_object else Inl network_error)"


definition w0 :: world where
  "w0 = \<lparr>calls = 0, slept = []\<rparr>"

text \<open>The run of the repository's test "multiple retries": three steps that succeed at
  their third, second and first attempt.\<close>

definition mock_attempt :: "bool \<Rightarrow> AttemptResult" where
  "mock_attempt ok =
     \<lparr>attemptNumber = 1, att_success = ok, inputTokens = Some 100, outputTokens = Some 50,
      prompt = ''mock prompt'', rawResponse = ''mock response'',
      parsedResponse = (if ok then Some (JObj [(''test'', JStr ''data'')]) else None),
      validationErrors = [], errorMessage = None\<rparr>"

definition mock_step :: "nat \<Rightarrow> AttemptResult list \<Rightarrow> StepResult" where
  "mock_step n as = mkStep n ''Step'' (list_ex att_success as) as"

definition sequential_run :: "StepResult list \<Rightarrow> RunResult" where
  "sequential_run ss =
     \<lparr>runNumber = 1, run_success = list_all step_success ss, run_attempts = [],
      steps = Some ss,
      finalResponse = (if list_all step_success ss then Some (JObj [(''test'', JStr ''data'')])
                       else None)\<rparr>"

definition multiple_retries_run :: RunResult where
  "multiple_retries_run =
     sequential_run
       [mock_step 1 [mock_attempt False, mock_attempt False, mock_attempt True],
        mock_step 2 [mock_attempt False, mock_attempt True],
        mock_step 3 [mock_attempt True]]"

text \<open>Two requests with a valid body, for a server that knows one model and has its key.\<close>

definition demo_route :: route_env where
  "demo_route =
     \<lparr>modelDefinitions = [gpt4o],
      process_env = (\<lambda>v. if v = ''OPENAI_API_KEY'' then Some ''sk-test'' else None),
      uuid = (\<lambda>k. if k = 0 then ''run-a'' else ''run-b'')\<rparr>"

definition demo_request :: post_request where
  "demo_request =
     \<lparr>headers = (\<lambda>h. None),
      json_body = Inr \<lparr>body_models = None, body_scenarios = Some [1],
                       body_runsPerScenario = Some 1, body_maxRetries = Some 0\<rparr>\<rparr>"

text \<open>A provider whose first \<open>n\<close> calls fail with a network error and whose later calls
  succeed.\<close>

definition objects_after :: "nat \<Rightarrow> nat \<Rightarrow> thrown + object_result" where
  "objects_after n k = (if k < n then Inl network_error else Inr ok_object)"

text \<open>A run at a glance: its success flag and, per attempt, the number and the success
  flag; of a sequential run, the same per step.\<close>

definition attempts_view :: "AttemptResult list \<Rightarrow> (nat \<times> bool) list" where
  "attempts_view as = map (\<lambda>a. (attemptNumber a, att_success a)) as"

definition run_view :: "RunResult \<Rightarrow> bool \<times> (nat \<times> bool) list \<times> (nat \<times> bool \<times> (nat \<times> bool) list) list option" where
  "run_view r =
     (run_success r, attempts_view (run_attempts r),
      map_option (map (\<lambda>s. (stepNumber s, step_success s, attempts_view (step_attempts s))))
        (steps r))"

text \<open>The runs of the repository's other tests of the summary: flat runs given by the
  success flags of their attempts, and sequential runs given by those of their steps.\<close>

definition mock_run :: "bool list \<Rightarrow> RunResult" where
  "mock_run flags =
     \<lparr>runNumber = 1, run_success = list_ex (\<lambda>b. b) flags,
      run_attempts = map mock_attempt flags, steps = None,
      finalResponse = (if list_ex (\<lambda>b. b) flags then Some (JObj [(''test'', JStr ''data'')])
                       else None)\<rparr>"

definition mock_sequential :: "bool list list \<Rightarrow> RunResult" where
  "mock_sequential flagss =
     sequential_run (map (\<lambda>(n, flags). mock_step n (map mock_attempt flags))
                       (zip [1..<Suc (length flagss)] flagss))"

section \<open>Proofs\<close>

subsection \<open>The backoff wrapper\<close>

lemma backoff_loop_run:
  assumes "\<forall>i. attempt \<le> i \<and> i < k \<longrightarrow> rate_limited (fn i)"
    and "attempt \<le> k" and "k \<le> retries"
    and "k = retries \<or> \<not> rate_limited (fn k)"
  shows "backoff_loop fn retries attempt lastError delays =
           (fn k, delays @ map (\<lambda>i. BACKOFF_BASE_MS * 2 ^ i) [attempt..<k])"
  using assms
proof (induction "k - attempt" arbitrary: attempt lastError delays)
  case 0
  then have eq: "attempt = k" by simp
  show ?case
  proof (cases "fn k")
    case (Inl e)
    with 0 eq show ?thesis
      by (auto simp: rate_limited_def)
  next
    case (Inr v)
    with 0 eq show ?thesis by simp
  qed
next
  case (Suc n)
  then have lt: "attempt < k" by simp
  with Suc.prems have rl: "rate_limited (fn attempt)" by simp
  then obtain e where e: "fn attempt = Inl e" "isRateLimitError e"
    by (auto simp: rate_limited_def split: sum.splits)
  have step: "backoff_loop fn retries attempt lastError delays =
        backoff_loop fn retries (attempt + 1) (Some e) (delays @ [BACKOFF_BASE_MS * 2 ^ attempt])"
    using e lt Suc.prems(3) by simp
  have "backoff_loop fn retries (attempt + 1) (Some e) (delays @ [BACKOFF_BASE_MS * 2 ^ attempt]) =
        (fn k, (delays @ [BACKOFF_BASE_MS * 2 ^ attempt]) @ map (\<lambda>i. BACKOFF_BASE_MS * 2 ^ i) [attempt + 1..<k])"
    using Suc.hyps(2) Suc.prems lt by (intro Suc.hyps(1)) auto
  with step lt show ?case by (simp add: upt_conv_Cons)
qed

lemma withExponentialBackoff_run:
  assumes "\<forall>i<k. rate_limited (fn i)" and "k \<le> retries"
    and "k = retries \<or> \<not> rate_limited (fn k)"
  shows "withExponentialBackoff fn retries = (fn k, backoff_delays k)"
  unfolding withExponentialBackoff_def backoff_delays_def
  using backoff_loop_run[of 0 k fn retries None "[]"] assms by simp

lemma startsWith_map: "startsWith s p \<Longrightarrow> startsWith (map f s) (map f p)"
  by (induction s p rule: startsWith.induct) auto

lemma str_includes_map: "str_includes s p \<Longrightarrow> str_includes (map f s) (map f p)"
proof (induction s)
  case Nil
  then show ?case by simp
next
  case (Cons c cs)
  then show ?case using startsWith_map[of "c # cs" p f] by auto
qed

lemma str_includes_lower:
  "str_includes s p \<Longrightarrow> toLowerCase p = p \<Longrightarrow> str_includes (toLowerCase s) p"
  using str_includes_map[of s p toLowerChar] by (simp add: toLowerCase_def)

lemma lower_needles:
  "toLowerCase ''429'' = ''429''" "toLowerCase ''rate limit'' = ''rate limit''"
  "toLowerCase ''too many requests'' = ''too many requests''"
  by (simp_all add: toLowerCase_def toLowerChar_def)

lemma isRateLimitError_described:
  assumes "(err_kind e \<noteq> NotErrorK \<and>
            (str_includes (err_message e) ''429'' \<or> str_includes (err_message e) ''rate limit''
             \<or> str_includes (err_message e) ''too many requests''))
           \<or> err_status e = Some 429"
  shows "isRateLimitError e"
  using assms str_includes_lower lower_needles
  by (auto simp: isRateLimitError_def Let_def)

subsection \<open>The two executors\<close>

lemma backoff_loop_result:
  "attempt \<le> retries \<Longrightarrow>
     \<exists>k. k \<le> retries \<and> fst (backoff_loop fn retries attempt lastError delays) = fn k"
proof (induction fn retries attempt lastError delays rule: backoff_loop.induct)
  case (1 fn retries attempt lastError delays)
  show ?case
  proof (cases "fn attempt")
    case (Inr v)
    with "1.prems" show ?thesis by (intro exI[of _ attempt]) simp
  next
    case (Inl e)
    show ?thesis
    proof (cases "isRateLimitError e \<and> attempt < retries")
      case True
      with "1.IH"[OF "1.prems" Inl True] Inl "1.prems" show ?thesis by simp
    next
      case False
      with Inl "1.prems" show ?thesis by (intro exI[of _ attempt]) auto
    qed
  qed
qed

lemma withExponentialBackoff_result:
  "\<exists>k. k \<le> retries \<and> fst (withExponentialBackoff fn retries) = fn k"
  unfolding withExponentialBackoff_def by (rule backoff_loop_result) simp



lemma strict_never_throws:
  "\<exists>r w'. runStrictAttempt E model messages schema config w = (Inr r, w')"
  unfolding runStrictAttempt_def Let_def
  by (auto split: prod.splits sum.splits)

subsection \<open>The attempt loops\<close>

lemma loop_inv_length:
  assumes "loop_inv config attempt attempts"
  shows "Suc (length attempts) = attempt"
proof -
  have "length (map attemptNumber attempts) = length [1..<attempt]"
    using assms by (simp add: loop_inv_def)
  then have "length attempts = attempt - 1" by simp
  with assms show ?thesis by (simp add: loop_inv_def)
qed

lemma loop_inv_start: "loop_inv config 1 []"
  by (simp add: loop_inv_def)

lemma loop_inv_exhausted:
  assumes "loop_inv config attempt attempts" and "\<not> attempt \<le> maxRetries config + 1"
  shows "attempt_loop_ok config attempts False"
proof -
  have len: "Suc (length attempts) = attempt" using assms(1) by (rule loop_inv_length)
  have "\<forall>a \<in> set (butlast attempts). \<not> att_success a"
    using assms(1) by (auto simp: loop_inv_def dest: in_set_butlastD)
  with assms len show ?thesis
    by (auto simp: attempt_loop_ok_def loop_inv_def)
qed

lemma loop_inv_success:
  assumes "loop_inv config attempt attempts" and "attempt \<le> maxRetries config + 1"
    and "success result"
  shows "attempt_loop_ok config (attempts @ [attemptResult_of attempt p result]) True"
proof -
  have len: "Suc (length attempts) = attempt" using assms(1) by (rule loop_inv_length)
  have num: "attemptNumber (attemptResult_of attempt p result) = attempt"
    and ok: "att_success (attemptResult_of attempt p result)"
    using assms(3) by (simp_all add: attemptResult_of_def)
  have "map attemptNumber (attempts @ [attemptResult_of attempt p result]) = [1..<Suc attempt]"
    using assms(1) num by (simp add: loop_inv_def)
  with assms len ok show ?thesis
    by (auto simp: attempt_loop_ok_def loop_inv_def)
qed

lemma loop_inv_failed:
  assumes "loop_inv config attempt attempts" and "attempt \<le> maxRetries config + 1"
    and "\<not> success result"
  shows "loop_inv config (attempt + 1) (attempts @ [attemptResult_of attempt p result])"
  using assms by (auto simp: loop_inv_def attemptResult_of_def)

lemma oneShot_loop_rule:
  assumes run: "oneShot_loop E strict model config attempt attempts w = (Inr (as, ok, final), w')"
    and I0: "I attempt attempts"
    and exhausted: "\<And>n xs. I n xs \<Longrightarrow> \<not> n \<le> maxRetries config + 1 \<Longrightarrow> Q xs False"
    and succeeded: "\<And>n xs p r. I n xs \<Longrightarrow> n \<le> maxRetries config + 1 \<Longrightarrow> success r
                      \<Longrightarrow> Q (xs @ [attemptResult_of n p r]) True"
    and failed: "\<And>n xs p r. I n xs \<Longrightarrow> n \<le> maxRetries config + 1 \<Longrightarrow> \<not> success r
                      \<Longrightarrow> I (n + 1) (xs @ [attemptResult_of n p r])"
  shows "Q as ok"
  using run I0 exhausted succeeded failed
proof (induction E strict model config attempt attempts w rule: oneShot_loop.induct)
  case (1 E strict model config attempt attempts w)
  note ex = "1.prems"(3) and su = "1.prems"(4) and fa = "1.prems"(5)
  show ?case
  proof (cases "attempt \<le> maxRetries config + 1")
    case False
    with "1.prems"(1,2) ex[of attempt attempts] show ?thesis by simp
  next
    case True
    let ?messages = "oneShot_messages E strict attempt attempts"
    obtain res w1 where run: "runAttempt strict E model ?messages (ResponseSchema E) config w = (res, w1)"
      by (cases "runAttempt strict E model ?messages (ResponseSchema E) config w") auto
    show ?thesis
    proof (cases res)
      case (Inl e)
      with "1.prems"(1) True run show ?thesis by (simp add: Let_def)
    next
      case (Inr result)
      let ?as' = "attempts @ [attemptResult_of attempt (promptText_of ?messages) result]"
      show ?thesis
      proof (cases "success result")
        case True
        with "1.prems"(1) \<open>attempt \<le> maxRetries config + 1\<close> run Inr
        have "as = ?as'" "ok = True" by (simp_all add: Let_def)
        with su[OF "1.prems"(2) \<open>attempt \<le> maxRetries config + 1\<close> True]
        show ?thesis by simp
      next
        case False
        with "1.prems"(1) \<open>attempt \<le> maxRetries config + 1\<close> run Inr
        have rec: "oneShot_loop E strict model config (attempt + 1) ?as' w1 = (Inr (as, ok, final), w')"
          by (simp add: Let_def)
        have inv: "I (attempt + 1) ?as'"
          using fa[OF "1.prems"(2) \<open>attempt \<le> maxRetries config + 1\<close> False] .
        show ?thesis
          using "1.IH"[OF \<open>attempt \<le> maxRetries config + 1\<close> refl refl run[symmetric] Inr refl False rec inv ex su fa] .
      qed
    qed
  qed
qed

lemma step_loop_rule:
  assumes run: "step_loop E strict model config schema attempt messages attempts w = (Inr (as, ok, final), w')"
    and I0: "I attempt attempts"
    and exhausted: "\<And>n xs. I n xs \<Longrightarrow> \<not> n \<le> maxRetries config + 1 \<Longrightarrow> Q xs False"
    and succeeded: "\<And>n xs p r. I n xs \<Longrightarrow> n \<le> maxRetries config + 1 \<Longrightarrow> success r
                      \<Longrightarrow> Q (xs @ [attemptResult_of n p r]) True"
    and failed: "\<And>n xs p r. I n xs \<Longrightarrow> n \<le> maxRetries config + 1 \<Longrightarrow> \<not> success r
                      \<Longrightarrow> I (n + 1) (xs @ [attemptResult_of n p r])"
  shows "Q as ok"
  using run I0 exhausted succeeded failed
proof (induction E strict model config schema attempt messages attempts w rule: step_loop.induct)
  case (1 E strict model config schema attempt messages attempts w)
  note ex = "1.prems"(3) and su = "1.prems"(4) and fa = "1.prems"(5)
  show ?case
  proof (cases "attempt \<le> maxRetries config + 1")
    case False
    with "1.prems"(1,2) ex[of attempt attempts] show ?thesis by simp
  next
    case True
    obtain res w1 where run: "runAttempt strict E model messages schema config w = (res, w1)"
      by (cases "runAttempt strict E model messages schema config w") auto
    show ?thesis
    proof (cases res)
      case (Inl e)
      with "1.prems"(1) True run show ?thesis by (simp add: Let_def)
    next
      case (Inr result)
      let ?as' = "attempts @ [attemptResult_of attempt (promptText_of messages) result]"
      let ?ms' = "messages @ [msg Assistant (raw result),
                     msg User (getRetryPrompt E (raw result) (errors_or_empty result))]"
      show ?thesis
      proof (cases "success result")
        case True
        with "1.prems"(1) \<open>attempt \<le> maxRetries config + 1\<close> run Inr
        have "as = ?as'" "ok = True" by (simp_all add: Let_def)
        with su[OF "1.prems"(2) \<open>attempt \<le> maxRetries config + 1\<close> True]
        show ?thesis by simp
      next
        case False
        with "1.prems"(1) \<open>attempt \<le> maxRetries config + 1\<close> run Inr
        have rec: "step_loop E strict model config schema (attempt + 1) ?ms' ?as' w1 = (Inr (as, ok, final), w')"
          by (simp add: Let_def)
        have inv: "I (attempt + 1) ?as'"
          using fa[OF "1.prems"(2) \<open>attempt \<le> maxRetries config + 1\<close> False] .
        show ?thesis
          using "1.IH"[OF \<open>attempt \<le> maxRetries config + 1\<close> refl run[symmetric] Inr refl False rec inv ex su fa] .
      qed
    qed
  qed
qed

lemma oneShot_loop_ok:
  assumes "oneShot_loop E strict model config 1 [] w = (Inr (as, ok, final), w')"
  shows "attempt_loop_ok config as ok"
  using assms loop_inv_start
  by (rule oneShot_loop_rule[where I = "loop_inv config" and Q = "attempt_loop_ok config"])
     (auto intro: loop_inv_exhausted loop_inv_success loop_inv_failed[simplified])

lemma step_loop_ok:
  assumes "step_loop E strict model config schema 1 messages [] w = (Inr (as, ok, final), w')"
  shows "attempt_loop_ok config as ok"
  using assms loop_inv_start
  by (rule step_loop_rule[where I = "loop_inv config" and Q = "attempt_loop_ok config"])
     (auto intro: loop_inv_exhausted loop_inv_success loop_inv_failed[simplified])

lemma oneShot_loop_errorMessage:
  assumes "oneShot_loop E strict model config 1 [] w = (Inr (as, ok, final), w')"
  shows "no_errorMessage as"
  by (rule oneShot_loop_rule[OF assms, where I = "\<lambda>n. no_errorMessage" and Q = "\<lambda>xs b. no_errorMessage xs"])
     (auto simp: no_errorMessage_def attemptResult_of_def)

lemma step_loop_errorMessage:
  assumes "step_loop E strict model config schema 1 messages [] w = (Inr (as, ok, final), w')"
  shows "no_errorMessage as"
  by (rule step_loop_rule[OF assms, where I = "\<lambda>n. no_errorMessage" and Q = "\<lambda>xs b. no_errorMessage xs"])
     (auto simp: no_errorMessage_def attemptResult_of_def)

subsection \<open>Claims about the executor\<close>

lemma rate_error_is_rate_limit: "isRateLimitError rate_error"
  by (simp add: rate_error_def new_Error_def isRateLimitError_def toLowerCase_def toLowerChar_def)

lemma network_error_not_rate_limit: "\<not> isRateLimitError network_error"
  by (simp add: network_error_def new_Error_def isRateLimitError_def toLowerCase_def
      toLowerChar_def)

lemma backoff_delays_values:
  "backoff_delays 0 = []" "backoff_delays 2 = [5000, 10000]"
  "backoff_delays 4 = [5000, 10000, 20000, 40000]"
  by (simp_all add: backoff_delays_def BACKOFF_BASE_MS_def upt_rec)

lemma one_retry_fields: "maxRetries one_retry = 1" "runsPerScenario one_retry = 1"
  by (simp_all add: one_retry_def)

text \<open>
  Claim C6. Let the first \<open>k\<close> invocations of the wrapped function throw rate-limit
  errors, with \<open>k\<close> at most the retry ceiling, and let invocation \<open>k\<close> be the first that
  does not, or the one at the ceiling. Then the wrapper ends with the outcome of
  invocation \<open>k\<close> (its value, or its error rethrown) after having slept the base delay
  doubled at each retry, \<open>k\<close> times: an error that is no rate-limit signal is rethrown
  at once, and at the ceiling the last error is rethrown. A thrown value is a rate-limit
  signal exactly when it is an \<open>Error\<close> whose message, in lower case, contains \<open>429\<close>,
  \<open>rate limit\<close> or \<open>too many requests\<close>, or when its \<open>status\<close> is 429.
\<close>

theorem backoff_retries_rate_limits_only:
  assumes "\<forall>i<k. rate_limited (fn i)" and "k \<le> retries"
    and "k = retries \<or> \<not> rate_limited (fn k)"
  shows "withExponentialBackoff fn retries = (fn k, backoff_delays k) \<and>
         (\<forall>e. isRateLimitError e \<longleftrightarrow>
                (err_kind e \<noteq> NotErrorK \<and>
                 (str_includes (toLowerCase (err_message e)) ''429'' \<or>
                  str_includes (toLowerCase (err_message e)) ''rate limit'' \<or>
                  str_includes (toLowerCase (err_message e)) ''too many requests''))
                \<or> err_status e = Some 429)"
proof
  show "withExponentialBackoff fn retries = (fn k, backoff_delays k)"
    using assms by (rule withExponentialBackoff_run)
next
  show "\<forall>e. isRateLimitError e \<longleftrightarrow>
          (err_kind e \<noteq> NotErrorK \<and>
           (str_includes (toLowerCase (err_message e)) ''429'' \<or>
            str_includes (toLowerCase (err_message e)) ''rate limit'' \<or>
            str_includes (toLowerCase (err_message e)) ''too many requests''))
          \<or> err_status e = Some 429"
    by (auto simp: isRateLimitError_def Let_def split: option.splits)
qed

text \<open>
  The theorem at the default ceiling of 4: two rate-limit errors and then a result cost
  5 and 10 seconds; rate-limit errors throughout cost 5, 10, 20 and 40 seconds and the
  last one is rethrown; a network error is rethrown without any delay.
\<close>

theorem backoff_retries_rate_limits_only_witness:
  "withExponentialBackoff (\<lambda>i. if i < 2 then Inl rate_error else Inr ok_text) BACKOFF_MAX_RETRIES
     = (Inr ok_text, [5000, 10000]) \<and>
   withExponentialBackoff (\<lambda>i. Inl rate_error :: thrown + text_result) BACKOFF_MAX_RETRIES
     = (Inl rate_error, [5000, 10000, 20000, 40000]) \<and>
   withExponentialBackoff (\<lambda>i. Inl network_error :: thrown + text_result) BACKOFF_MAX_RETRIES
     = (Inl network_error, [])"
proof -
  let ?f = "\<lambda>i::nat. if i < 2 then Inl rate_error else Inr ok_text"
  let ?g = "\<lambda>i::nat. Inl rate_error :: thrown + text_result"
  let ?h = "\<lambda>i::nat. Inl network_error :: thrown + text_result"
  have f: "\<forall>i<2. rate_limited (?f i)" "(2::nat) \<le> BACKOFF_MAX_RETRIES"
    "2 = BACKOFF_MAX_RETRIES \<or> \<not> rate_limited (?f 2)"
    by (simp_all add: rate_limited_def rate_error_is_rate_limit BACKOFF_MAX_RETRIES_def)
  have g: "\<forall>i<4. rate_limited (?g i)" "(4::nat) \<le> BACKOFF_MAX_RETRIES"
    "4 = BACKOFF_MAX_RETRIES \<or> \<not> rate_limited (?g 4)"
    by (simp_all add: rate_limited_def rate_error_is_rate_limit BACKOFF_MAX_RETRIES_def)
  have h: "\<forall>i<0. rate_limited (?h i)" "(0::nat) \<le> BACKOFF_MAX_RETRIES"
    "0 = BACKOFF_MAX_RETRIES \<or> \<not> rate_limited (?h 0)"
    by (simp_all add: rate_limited_def network_error_not_rate_limit)
  show ?thesis
    using backoff_retries_rate_limits_only[OF f] backoff_retries_rate_limits_only[OF g]
      backoff_retries_rate_limits_only[OF h]
    by (simp add: backoff_delays_values)
qed




subsection \<open>The error list of an attempt\<close>

lemma parseZodErrors_issues: "parseZodErrors error = err_issues error"
  unfolding parseZodErrors_def by (rule map_idI) simp

lemma strict_result:
  "runStrictAttempt E model messages schema config w =
     (case fst (withExponentialBackoff
                  (\<lambda>k. generateObject E (calls w + k) (call_options_of model messages config))
                  BACKOFF_MAX_RETRIES) of
        Inr result \<Rightarrow>
          (Inr \<lparr>success = True, data = Some (gen_object result),
                raw = JSON_stringify E (gen_object result), errors = None,
                tokens = Some (or_zero (object_inputTokens result),
                               or_zero (object_outputTokens result))\<rparr>,
           throttle model (after_calls w (snd (withExponentialBackoff
                  (\<lambda>k. generateObject E (calls w + k) (call_options_of model messages config))
                  BACKOFF_MAX_RETRIES))))
      | Inl error \<Rightarrow>
          (Inr \<lparr>success = False, data = None,
                raw = (if err_kind error = ZodErrorK \<or> rawText_of error \<noteq> [] then rawText_of error
                       else ''Error: '' @ err_message error),
                errors = Some (failure_entries True error), tokens = None\<rparr>,
           after_calls w (snd (withExponentialBackoff
                  (\<lambda>k. generateObject E (calls w + k) (call_options_of model messages config))
                  BACKOFF_MAX_RETRIES))))"
  by (simp add: runStrictAttempt_def failure_entries_def parseZodErrors_issues Let_def
      split: prod.splits sum.splits)

lemma strict_entries:
  assumes "runStrictAttempt E model messages schema config w = (Inr r, w')"
  shows "(case caught_error True E model messages schema config w of
            None \<Rightarrow> success r \<and> errors r = None
          | Some e \<Rightarrow> \<not> success r \<and> errors r = Some (failure_entries True e))"
  using assms unfolding strict_result caught_error_def
  by (auto split: sum.splits)

lemma nonstrict_entries:
  assumes "runNonStrictAttempt E model messages schema config w = (Inr r, w')"
  shows "(case caught_error False E model messages schema config w of
            None \<Rightarrow> success r \<and> errors r = None
          | Some e \<Rightarrow> \<not> success r \<and> errors r = Some (failure_entries False e) \<and>
                      (err_kind e = ZodErrorK \<or> err_kind e = SyntaxErrorK))"
  using assms unfolding runNonStrictAttempt_def caught_error_def Let_def
  by (auto simp: failure_entries_def parseZodErrors_issues split: prod.splits sum.splits if_splits)

lemma nonstrict_caught_returns:
  assumes "caught_error False E model messages schema config w = Some e"
    and "err_kind e = ZodErrorK \<or> err_kind e = SyntaxErrorK"
  shows "\<exists>r w'. runNonStrictAttempt E model messages schema config w = (Inr r, w')"
  using assms unfolding runNonStrictAttempt_def caught_error_def Let_def
  by (auto split: prod.splits sum.splits if_splits)


lemma failure_entries_empty:
  "failure_entries strict e = [] \<longleftrightarrow> err_kind e = ZodErrorK \<and> err_issues e = []"
  by (simp add: failure_entries_def)

lemma attempt_entries:
  assumes "runAttempt strict E model messages schema config w = (Inr r, w')"
  shows "(case caught_error strict E model messages schema config w of
            None \<Rightarrow> success r \<and> errors r = None
          | Some e \<Rightarrow> \<not> success r \<and> errors r = Some (failure_entries strict e) \<and>
                      (strict \<or> err_kind e = ZodErrorK \<or> err_kind e = SyntaxErrorK))"
proof (cases strict)
  case True
  with assms have "runStrictAttempt E model messages schema config w = (Inr r, w')"
    by (simp add: runAttempt_def)
  from strict_entries[OF this] True show ?thesis by (simp split: option.splits)
next
  case False
  with assms have "runNonStrictAttempt E model messages schema config w = (Inr r, w')"
    by (simp add: runAttempt_def)
  from nonstrict_entries[OF this] False show ?thesis by (simp split: option.splits)
qed

text \<open>
  Claim C9, as the code has it. Whatever result the executor returns, in either mode, is
  a success exactly when its \<open>catch\<close> block received no error, and then it has no error
  list (the attempt records the empty list); a failure carries the list that the caught
  error determines: the issues of a \<open>ZodError\<close>, or for any other error the single
  \<open>invalid_json\<close> entry (non-strict mode, where only a \<open>SyntaxError\<close> yields a result) or
  the single \<open>api_error\<close> entry (strict mode). That list is empty exactly for a
  \<open>ZodError\<close> without issues. The strict executor always returns a result; the
  non-strict one returns one whenever it caught a \<open>ZodError\<close> or a \<open>SyntaxError\<close>.
\<close>

theorem attempt_errors_follow_caught_error:
  "(\<forall>r w'. runAttempt strict E model messages schema config w = (Inr r, w') \<longrightarrow>
      (success r \<longleftrightarrow> caught_error strict E model messages schema config w = None) \<and>
      (success r \<longrightarrow> errors r = None \<and> validationErrors (attemptResult_of n p r) = []) \<and>
      (\<not> success r \<longrightarrow>
         (\<exists>e. caught_error strict E model messages schema config w = Some e \<and>
              (strict \<or> err_kind e = ZodErrorK \<or> err_kind e = SyntaxErrorK) \<and>
              errors r = Some (failure_entries strict e) \<and>
              validationErrors (attemptResult_of n p r) = failure_entries strict e \<and>
              (failure_entries strict e = [] \<longleftrightarrow>
                 err_kind e = ZodErrorK \<and> err_issues e = [])))) \<and>
   (strict \<longrightarrow> (\<exists>r w'. runAttempt strict E model messages schema config w = (Inr r, w'))) \<and>
   (\<forall>e. caught_error strict E model messages schema config w = Some e \<and>
        (err_kind e = ZodErrorK \<or> err_kind e = SyntaxErrorK) \<longrightarrow>
        (\<exists>r w'. runAttempt strict E model messages schema config w = (Inr r, w')))"
proof (intro conjI allI impI)
  fix r :: exec_result and w' :: world
  assume run: "runAttempt strict E model messages schema config w = (Inr r, w')"
  note ent = attempt_entries[OF run]
  show "success r \<longleftrightarrow> caught_error strict E model messages schema config w = None"
    using ent by (simp split: option.splits)
  show "errors r = None" if "success r"
    using ent that by (simp split: option.splits)
  show "validationErrors (attemptResult_of n p r) = []" if "success r"
    using ent that by (simp add: attemptResult_of_def errors_or_empty_def split: option.splits)
  show "\<exists>e. caught_error strict E model messages schema config w = Some e \<and>
            (strict \<or> err_kind e = ZodErrorK \<or> err_kind e = SyntaxErrorK) \<and>
            errors r = Some (failure_entries strict e) \<and>
            validationErrors (attemptResult_of n p r) = failure_entries strict e \<and>
            (failure_entries strict e = [] \<longleftrightarrow>
               err_kind e = ZodErrorK \<and> err_issues e = [])" if "\<not> success r"
  proof -
    from ent that obtain e where e: "caught_error strict E model messages schema config w = Some e"
      "errors r = Some (failure_entries strict e)"
      "strict \<or> err_kind e = ZodErrorK \<or> err_kind e = SyntaxErrorK"
      by (cases "caught_error strict E model messages schema config w") auto
    have "validationErrors (attemptResult_of n p r) = failure_entries strict e"
      using e(2) by (simp add: attemptResult_of_def errors_or_empty_def)
    with e failure_entries_empty[of strict e] show ?thesis
      by (intro exI[of _ e]) simp
  qed
next
  assume strict
  with strict_never_throws[of E model messages schema config w]
  show "\<exists>r w'. runAttempt strict E model messages schema config w = (Inr r, w')"
    by (simp add: runAttempt_def)
next
  fix e
  assume e: "caught_error strict E model messages schema config w = Some e \<and>
        (err_kind e = ZodErrorK \<or> err_kind e = SyntaxErrorK)"
  show "\<exists>r w'. runAttempt strict E model messages schema config w = (Inr r, w')"
  proof (cases strict)
    case True
    with strict_never_throws[of E model messages schema config w] show ?thesis
      by (simp add: runAttempt_def)
  next
    case False
    with e nonstrict_caught_returns[of E model messages schema config w e] show ?thesis
      by (simp add: runAttempt_def)
  qed
qed

text \<open>The theorem on a schema that rejects every value with one issue (non-strict mode:
  the text parses, the validation fails, the attempt records the issue), and on a
  provider that fails with a network error (strict mode: the attempt records the
  \<open>api_error\<close> entry).\<close>

theorem attempt_errors_follow_caught_error_witness:
  "fst (runAttempt False (demo_env (\<lambda>k. Inr ok_text) (objects_until 0) Inr) gpt4o []
          (\<lambda>j. Inl zod_error) one_retry w0) =
     Inr \<lparr>success = False, data = None, raw = ''{}'',
          errors = Some [\<lparr>path = [''recommendation''], message = ''Required'',
                          code = ''invalid_type''\<rparr>],
          tokens = Some (100, 50)\<rparr> \<and>
   caught_error False (demo_env (\<lambda>k. Inr ok_text) (objects_until 0) Inr) gpt4o []
     (\<lambda>j. Inl zod_error) one_retry w0 = Some zod_error \<and>
   validationErrors
     (attemptResult_of 1 []
        \<lparr>success = False, data = None, raw = ''{}'',
         errors = Some [\<lparr>path = [''recommendation''], message = ''Required'',
                         code = ''invalid_type''\<rparr>],
         tokens = Some (100, 50)\<rparr>) = failure_entries False zod_error \<and>
   fst (runAttempt True (demo_env (\<lambda>k. Inr ok_text) (\<lambda>k. Inl network_error) Inr) gpt4o []
          Inr one_retry w0) =
     Inr \<lparr>success = False, data = None, raw = ''Error: socket hang up'',
          errors = Some [\<lparr>path = [], message = ''socket hang up'', code = ''api_error''\<rparr>],
          tokens = None\<rparr> \<and>
   caught_error True (demo_env (\<lambda>k. Inr ok_text) (\<lambda>k. Inl network_error) Inr) gpt4o []
     Inr one_retry w0 = Some network_error \<and>
   validationErrors
     (attemptResult_of 1 []
        \<lparr>success = False, data = None, raw = ''Error: socket hang up'',
         errors = Some [\<lparr>path = [], message = ''socket hang up'', code = ''api_error''\<rparr>],
         tokens = None\<rparr>) = failure_entries True network_error"
proof -
  let ?E = "demo_env (\<lambda>k. Inr ok_text) (objects_until 0) Inr"
  let ?S = "\<lambda>j::json. Inl zod_error :: thrown + json"
  let ?r = "\<lparr>success = False, data = None, raw = ''{}'',
          errors = Some [\<lparr>path = [''recommendation''], message = ''Required'',
                          code = ''invalid_type''\<rparr>],
          tokens = Some (100, 50)\<rparr>"
  let ?F = "demo_env (\<lambda>k. Inr ok_text) (\<lambda>k. Inl network_error) Inr"
  let ?q = "\<lparr>success = False, data = None, raw = ''Error: socket hang up'',
          errors = Some [\<lparr>path = [], message = ''socket hang up'', code = ''api_error''\<rparr>],
          tokens = None\<rparr>"
  have r: "runAttempt False ?E gpt4o [] ?S one_retry w0 = (Inr ?r, \<lparr>calls = 1, slept = []\<rparr>)"
    by (simp add: runAttempt_def runStrictAttempt_def runNonStrictAttempt_def
        withExponentialBackoff_def after_calls_def throttle_def rawText_of_def
        isRateLimitError_def toLowerCase_def toLowerChar_def BACKOFF_MAX_RETRIES_def
        RATE_LIMITED_PROVIDERS_def parse_and_validate_def parseZodErrors_def or_zero_def Let_def
        demo_env_def ok_text_def network_error_def zod_error_def new_Error_def gpt4o_def w0_def)
  have q: "runAttempt True ?F gpt4o [] Inr one_retry w0 = (Inr ?q, \<lparr>calls = 1, slept = []\<rparr>)"
    by (simp add: runAttempt_def runStrictAttempt_def runNonStrictAttempt_def
        withExponentialBackoff_def after_calls_def throttle_def rawText_of_def
        isRateLimitError_def toLowerCase_def toLowerChar_def BACKOFF_MAX_RETRIES_def
        RATE_LIMITED_PROVIDERS_def parse_and_validate_def parseZodErrors_def or_zero_def Let_def
        demo_env_def ok_text_def network_error_def zod_error_def new_Error_def gpt4o_def w0_def)
  have c: "caught_error False ?E gpt4o [] ?S one_retry w0 = Some zod_error"
    "caught_error True ?F gpt4o [] Inr one_retry w0 = Some network_error"
    by (simp_all add: caught_error_def runAttempt_def runStrictAttempt_def runNonStrictAttempt_def
        withExponentialBackoff_def after_calls_def throttle_def rawText_of_def
        isRateLimitError_def toLowerCase_def toLowerChar_def BACKOFF_MAX_RETRIES_def
        RATE_LIMITED_PROVIDERS_def parse_and_validate_def parseZodErrors_def or_zero_def Let_def
        demo_env_def ok_text_def network_error_def zod_error_def new_Error_def gpt4o_def w0_def)
  have "validationErrors (attemptResult_of 1 [] ?r) = failure_entries False zod_error"
    using attempt_errors_follow_caught_error[of False ?E gpt4o "[]" ?S one_retry w0 1 "[]",
        THEN conjunct1, rule_format, OF r] c(1)
    by (simp add: failure_entries_def zod_error_def attemptResult_of_def errors_or_empty_def)
  moreover
  have "validationErrors (attemptResult_of 1 [] ?q) = failure_entries True network_error"
    using attempt_errors_follow_caught_error[of True ?F gpt4o "[]" Inr one_retry w0 1 "[]",
        THEN conjunct1, rule_format, OF q] c(2)
    by (simp add: failure_entries_def network_error_def new_Error_def attemptResult_of_def
        errors_or_empty_def)
  ultimately show ?thesis
    by (simp only: r q c fst_conv simp_thms)
qed

text \<open>
  A failure with an empty error list: a \<open>ZodError\<close> that carries no issue, thrown by the
  schema in non-strict mode or by the model call in strict mode, yields \<open>success = false\<close>
  with the error list \<open>[]\<close>, and the attempt records \<open>[]\<close>.
\<close>

theorem issueless_zod_error_counterexample:
  "fst (runAttempt False (demo_env (\<lambda>k. Inr ok_text) (objects_until 0) Inr) gpt4o []
          (\<lambda>j. Inl empty_zod_error) one_retry w0) =
     Inr \<lparr>success = False, data = None, raw = ''{}'', errors = Some [],
          tokens = Some (100, 50)\<rparr> \<and>
   validationErrors
     (attemptResult_of 1 []
        \<lparr>success = False, data = None, raw = ''{}'', errors = Some [],
         tokens = Some (100, 50)\<rparr>) = [] \<and>
   fst (runAttempt True (demo_env (\<lambda>k. Inr ok_text) (\<lambda>k. Inl empty_zod_error) Inr) gpt4o []
          Inr one_retry w0) =
     Inr \<lparr>success = False, data = None, raw = [], errors = Some [], tokens = None\<rparr> \<and>
   validationErrors
     (attemptResult_of 1 []
        \<lparr>success = False, data = None, raw = [], errors = Some [], tokens = None\<rparr>) = []"
  by (simp add: runAttempt_def runStrictAttempt_def runNonStrictAttempt_def
      withExponentialBackoff_def after_calls_def throttle_def rawText_of_def
      isRateLimitError_def toLowerCase_def toLowerChar_def BACKOFF_MAX_RETRIES_def
      RATE_LIMITED_PROVIDERS_def parse_and_validate_def parseZodErrors_def or_zero_def Let_def
      demo_env_def ok_text_def network_error_def zod_error_def new_Error_def gpt4o_def w0_def
      empty_zod_error_def attemptResult_of_def errors_or_empty_def)

subsection \<open>The run loops\<close>

lemma oneShot_runs_all:
  assumes "oneShot_runs E strict model config runNum rs0 w = (Inr rs, w')"
    and "\<forall>r \<in> set rs0. R r"
    and "\<And>as ok final u u' n. oneShot_loop E strict model config 1 [] u = (Inr (as, ok, final), u')
           \<Longrightarrow> R \<lparr>runNumber = n, run_success = ok, run_attempts = as, steps = None,
                   finalResponse = final\<rparr>"
  shows "\<forall>r \<in> set rs. R r"
  using assms
proof (induction E strict model config runNum rs0 w rule: oneShot_runs.induct)
  case (1 E strict model config runNum rs0 w)
  note body = "1.prems"(3)
  show ?case
  proof (cases "runNum \<le> runsPerScenario config")
    case False
    with "1.prems"(1,2) show ?thesis by simp
  next
    case True
    obtain res w1 where loop: "oneShot_loop E strict model config 1 [] w = (res, w1)"
      by (cases "oneShot_loop E strict model config 1 [] w") auto
    show ?thesis
    proof (cases res)
      case (Inl e)
      with "1.prems"(1) True loop show ?thesis by simp
    next
      case (Inr t)
      obtain as ok final where t: "t = (as, ok, final)" by (cases t) auto
      let ?run = "\<lparr>runNumber = runNum, run_success = ok, run_attempts = as, steps = None,
                    finalResponse = final\<rparr>"
      have rec: "oneShot_runs E strict model config (runNum + 1) (rs0 @ [?run]) w1 = (Inr rs, w')"
        using "1.prems"(1) True loop Inr t by simp
      have "R ?run" using body[of w as ok final w1 runNum] loop Inr t by simp
      with "1.prems"(2) have all: "\<forall>r \<in> set (rs0 @ [?run]). R r" by simp
      show ?thesis
        using "1.IH"[OF True loop[symmetric] Inr t[symmetric] refl rec all body] .
    qed
  qed
qed

lemma seq_runs_all:
  assumes "seq_runs E strict model config runNum rs0 w = (Inr rs, w')"
    and "\<forall>r \<in> set rs0. R r"
    and "\<And>n u. R (fst (seq_run E strict model config n u))"
  shows "\<forall>r \<in> set rs. R r"
  using assms
proof (induction E strict model config runNum rs0 w rule: seq_runs.induct)
  case (1 E strict model config runNum rs0 w)
  note body = "1.prems"(3)
  show ?case
  proof (cases "runNum \<le> runsPerScenario config")
    case False
    with "1.prems"(1,2) show ?thesis by simp
  next
    case True
    obtain run w1 where run: "seq_run E strict model config runNum w = (run, w1)"
      by (cases "seq_run E strict model config runNum w") auto
    have rec: "seq_runs E strict model config (runNum + 1) (rs0 @ [run]) w1 = (Inr rs, w')"
      using "1.prems"(1) True run by simp
    have "R run" using body[of runNum w] run by simp
    with "1.prems"(2) have all: "\<forall>r \<in> set (rs0 @ [run]). R r" by simp
    show ?thesis
      using "1.IH"[OF True run[symmetric] rec all body] .
  qed
qed

lemma seq_runs_total:
  "\<exists>rs w'. seq_runs E strict model config runNum rs0 w = (Inr rs, w')"
proof (induction E strict model config runNum rs0 w rule: seq_runs.induct)
  case (1 E strict model config runNum rs0 w)
  show ?case
  proof (cases "runNum \<le> runsPerScenario config")
    case False
    then show ?thesis by simp
  next
    case True
    obtain run w1 where run: "seq_run E strict model config runNum w = (run, w1)"
      by (cases "seq_run E strict model config runNum w") auto
    from "1.IH"[OF True run[symmetric]] True run show ?thesis by simp
  qed
qed

lemma seq_runs_continue:
  assumes "seq_run E strict model config n w = (run, w')"
  shows "recorded E strict model config n w run w'"
  unfolding recorded_def
proof (intro conjI allI impI)
  show "seq_run E strict model config n w = (run, w')" by (rule assms)
next
  fix rs assume "n \<le> runsPerScenario config"
  with assms show "seq_runs E strict model config n rs w =
                   seq_runs E strict model config (n + 1) (rs @ [run]) w'"
    by simp
next
  fix rs show "\<exists>rs' w''. seq_runs E strict model config n rs w = (Inr rs', w'')"
    by (rule seq_runs_total)
qed

subsection \<open>The steps of a sequential run\<close>

lemma thrown_with_steps: "v_steps (snd (thrown_with e ss)) = ss"
  by (simp add: thrown_with_def)

lemma seq_merge_steps: "v_steps (snd (seq_merge E ss r1 r2 r3)) = ss"
  by (cases "ResponseSchema E (mergeSequentialParts E r1 r2 r3)")
     (simp_all add: seq_merge_def thrown_with_def Let_def)

lemma seq_step3_shape:
  assumes "step_loop E strict model config (SequentialPartSchema E 3) 1
             (step3_messages E strict r1 r2) [] w = (Inr (as, ok, r3), w1)"
  shows "v_steps (snd (fst (seq_step3 E strict model config ss r1 r2 w)))
           = ss @ [mkStep 3 ''AI Config'' ok as]"
proof (cases r3)
  case None
  with assms show ?thesis
    by (simp add: seq_step3_def Let_def falsy_opt_def thrown_with_steps)
next
  case (Some j)
  with assms show ?thesis
    by (cases "truthy j")
       (simp_all add: seq_step3_def Let_def falsy_opt_def thrown_with_steps seq_merge_steps)
qed

lemma seq_step3_steps:
  assumes "\<forall>s \<in> set ss. P s"
    and "\<And>schema msgs u as ok res u' n name.
           step_loop E strict model config schema 1 msgs [] u = (Inr (as, ok, res), u')
           \<Longrightarrow> P (mkStep n name ok as)"
  shows "\<forall>s \<in> set (v_steps (snd (fst (seq_step3 E strict model config ss r1 r2 w)))). P s"
proof -
  let ?L = "step_loop E strict model config (SequentialPartSchema E 3) 1
              (step3_messages E strict r1 r2) [] w"
  obtain res w1 where loop: "?L = (res, w1)" by (cases ?L) auto
  show ?thesis
  proof (cases res)
    case (Inl e)
    with assms(1) loop show ?thesis by (simp add: seq_step3_def thrown_with_steps)
  next
    case (Inr t)
    obtain as ok r3 where t: "t = (as, ok, r3)" by (cases t) auto
    have new: "P (mkStep 3 ''AI Config'' ok as)" using assms(2) loop Inr t by blast
    have "v_steps (snd (fst (seq_step3 E strict model config ss r1 r2 w)))
            = ss @ [mkStep 3 ''AI Config'' ok as]"
      using loop Inr t by (intro seq_step3_shape) simp
    with assms(1) new show ?thesis by simp
  qed
qed

lemma seq_step2_steps:
  assumes "\<forall>s \<in> set ss. P s"
    and "\<And>schema msgs u as ok res u' n name.
           step_loop E strict model config schema 1 msgs [] u = (Inr (as, ok, res), u')
           \<Longrightarrow> P (mkStep n name ok as)"
  shows "\<forall>s \<in> set (v_steps (snd (fst (seq_step2 E strict model config ss r1 w)))). P s"
proof -
  let ?L = "step_loop E strict model config (SequentialPartSchema E 2) 1
              (step2_messages E strict r1) [] w"
  obtain res w1 where loop: "?L = (res, w1)" by (cases ?L) auto
  show ?thesis
  proof (cases res)
    case (Inl e)
    with assms(1) loop show ?thesis by (simp add: seq_step2_def thrown_with_steps)
  next
    case (Inr t)
    obtain as ok r2 where t: "t = (as, ok, r2)" by (cases t) auto
    let ?ss' = "ss @ [mkStep 2 ''Details'' ok as]"
    have new: "P (mkStep 2 ''Details'' ok as)" using assms(2) loop Inr t by blast
    with assms(1) have all: "\<forall>s \<in> set ?ss'. P s" by simp
    show ?thesis
    proof (cases r2)
      case None
      with loop Inr t all show ?thesis
        by (simp add: seq_step2_def Let_def falsy_opt_def thrown_with_steps)
    next
      case (Some j)
      show ?thesis
      proof (cases "truthy j")
        case False
        with Some loop Inr t all show ?thesis
          by (simp add: seq_step2_def Let_def falsy_opt_def thrown_with_steps)
      next
        case True
        with Some loop Inr t
        have "seq_step2 E strict model config ss r1 w = seq_step3 E strict model config ?ss' r1 j w1"
          by (simp add: seq_step2_def Let_def falsy_opt_def)
        with seq_step3_steps[of ?ss' P E strict model config r1 j w1, OF all assms(2)]
        show ?thesis by simp
      qed
    qed
  qed
qed

lemma seq_try_steps:
  assumes "\<And>schema msgs u as ok res u' n name.
           step_loop E strict model config schema 1 msgs [] u = (Inr (as, ok, res), u')
           \<Longrightarrow> P (mkStep n name ok as)"
  shows "\<forall>s \<in> set (v_steps (snd (fst (seq_try E strict model config w)))). P s"
proof -
  let ?L = "step_loop E strict model config (SequentialPartSchema E 1) 1
              (step1_messages E strict) [] w"
  obtain res w1 where loop: "?L = (res, w1)" by (cases ?L) auto
  show ?thesis
  proof (cases res)
    case (Inl e)
    with loop show ?thesis by (simp add: seq_try_def thrown_with_steps)
  next
    case (Inr t)
    obtain as ok r1 where t: "t = (as, ok, r1)" by (cases t) auto
    let ?ss' = "[mkStep 1 ''Recommendation'' ok as]"
    have new: "P (mkStep 1 ''Recommendation'' ok as)" using assms loop Inr t by blast
    then have all: "\<forall>s \<in> set ?ss'. P s" by simp
    show ?thesis
    proof (cases r1)
      case None
      with loop Inr t all show ?thesis
        by (simp add: seq_try_def Let_def falsy_opt_def thrown_with_steps)
    next
      case (Some j)
      show ?thesis
      proof (cases "truthy j")
        case False
        with Some loop Inr t all show ?thesis
          by (simp add: seq_try_def Let_def falsy_opt_def thrown_with_steps)
      next
        case True
        with Some loop Inr t
        have "seq_try E strict model config w = seq_step2 E strict model config ?ss' j w1"
          by (simp add: seq_try_def Let_def falsy_opt_def)
        with seq_step2_steps[of ?ss' P E strict model config j w1, OF all assms]
        show ?thesis by simp
      qed
    qed
  qed
qed

lemma seq_run_fields:
  "steps (fst (seq_run E strict model config n w))
     = Some (v_steps (snd (fst (seq_try E strict model config w))))"
  "run_attempts (fst (seq_run E strict model config n w)) = []"
  by (simp_all add: seq_run_def split: prod.splits)

subsection \<open>Runners that never throw\<close>

text \<open>Scenarios 2, 3 and 4 always return their runs: the strict executor catches every
  error, and a sequential run catches whatever its steps throw.\<close>

lemma strict_oneShot_loop_total:
  assumes "strict"
  shows "\<exists>t w'. oneShot_loop E strict model config attempt attempts w = (Inr t, w')"
  using assms
proof (induction E strict model config attempt attempts w rule: oneShot_loop.induct)
  case (1 E strict model config attempt attempts w)
  show ?case
  proof (cases "attempt \<le> maxRetries config + 1")
    case False
    then have "oneShot_loop E strict model config attempt attempts w
                 = (Inr (attempts, False, None), w)" by simp
    then show ?thesis by blast
  next
    case True
    let ?messages = "oneShot_messages E strict attempt attempts"
    obtain result w1 where
      run: "runAttempt strict E model ?messages (ResponseSchema E) config w = (Inr result, w1)"
      using strict_never_throws[of E model ?messages "ResponseSchema E" config w] "1.prems"
      by (auto simp: runAttempt_def)
    show ?thesis
    proof (cases "success result")
      case True
      with \<open>attempt \<le> maxRetries config + 1\<close> run
      have "oneShot_loop E strict model config attempt attempts w
              = (Inr (attempts @ [attemptResult_of attempt (promptText_of ?messages) result],
                      True, data result), w1)"
        by (simp add: Let_def)
      then show ?thesis by blast
    next
      case False
      from "1.IH"[OF \<open>attempt \<le> maxRetries config + 1\<close> refl refl run[symmetric] refl refl False
          "1.prems"]
      obtain t w' where
        "oneShot_loop E strict model config (attempt + 1)
           (attempts @ [attemptResult_of attempt (promptText_of ?messages) result]) w1 = (Inr t, w')"
        by blast
      with \<open>attempt \<le> maxRetries config + 1\<close> run False
      have "oneShot_loop E strict model config attempt attempts w = (Inr t, w')"
        by (simp add: Let_def)
      then show ?thesis by blast
    qed
  qed
qed

lemma strict_oneShot_runs_total:
  assumes "strict"
  shows "\<exists>rs w'. oneShot_runs E strict model config runNum rs0 w = (Inr rs, w')"
  using assms
proof (induction E strict model config runNum rs0 w rule: oneShot_runs.induct)
  case (1 E strict model config runNum rs0 w)
  show ?case
  proof (cases "runNum \<le> runsPerScenario config")
    case False
    then show ?thesis by simp
  next
    case True
    obtain as ok final w1 where
      loop: "oneShot_loop E strict model config 1 [] w = (Inr (as, ok, final), w1)"
      using strict_oneShot_loop_total[OF "1.prems", of E model config 1 "[]" w] by auto
    from "1.IH"[OF True loop[symmetric] refl refl refl "1.prems"]
    obtain rs w' where
      "oneShot_runs E strict model config (runNum + 1)
         (rs0 @ [\<lparr>runNumber = runNum, run_success = ok, run_attempts = as, steps = None,
                  finalResponse = final\<rparr>]) w1 = (Inr rs, w')"
      by blast
    with True loop have "oneShot_runs E strict model config runNum rs0 w = (Inr rs, w')"
      by (simp del: oneShot_loop.simps)
    then show ?thesis by blast
  qed
qed

lemma dispatch_total:
  assumes "scenario = 2 \<or> scenario = 3 \<or> scenario = 4"
  shows "\<exists>rs w'. dispatch E model config scenario w = (Inr rs, w')"
  using assms strict_oneShot_runs_total[of True E model config 1 "[]" w]
    seq_runs_total[of E False model config 1 "[]" w] seq_runs_total[of E True model config 1 "[]" w]
  by (auto simp: dispatch_def runScenario2_def runScenario3_def runScenario4_def
      simp del: oneShot_runs.simps seq_runs.simps)

subsection \<open>Claims about the attempt loops\<close>

lemma dispatch_oneShot:
  assumes "dispatch E model config scenario w = (Inr rs, w')"
    and "scenario = 1 \<or> scenario = 2"
  shows "\<exists>strict. oneShot_runs E strict model config 1 [] w = (Inr rs, w')"
  using assms by (auto simp: dispatch_def runScenario1_def runScenario2_def)

lemma dispatch_sequential:
  assumes "dispatch E model config scenario w = (Inr rs, w')"
    and "scenario = 3 \<or> scenario = 4"
  shows "\<exists>strict. seq_runs E strict model config 1 [] w = (Inr rs, w')"
  using assms by (auto simp: dispatch_def runScenario3_def runScenario4_def)

lemma dispatch_scenario:
  assumes "dispatch E model config scenario w = (Inr rs, w')"
  shows "scenario = 1 \<or> scenario = 2 \<or> scenario = 3 \<or> scenario = 4"
  using assms by (auto simp: dispatch_def split: if_splits)

text \<open>
  Claim C5. In every run a scenario runner returns, the attempt loop of a one-shot run
  (scenarios 1 and 2) and of every step of a sequential run (scenarios 3 and 4) recorded
  at most \<open>maxRetries + 1\<close> attempts, numbered 1, 2, ... in order; no attempt but the last
  one recorded is a success; and the success flag of the run (of the step) is set exactly
  when a recorded attempt succeeded.
\<close>

theorem attempt_loops_bounded_and_stop_at_success:
  assumes "dispatch E model config scenario w = (Inr rs, w')" and "r \<in> set rs"
  shows "((scenario = 1 \<or> scenario = 2) \<longrightarrow>
            steps r = None \<and> attempt_loop_ok config (run_attempts r) (run_success r)) \<and>
         ((scenario = 3 \<or> scenario = 4) \<longrightarrow>
            (\<exists>ss. steps r = Some ss \<and>
                  (\<forall>s \<in> set ss. attempt_loop_ok config (step_attempts s) (step_success s))))"
proof (rule conjI; rule impI)
  assume sc: "scenario = 1 \<or> scenario = 2"
  let ?R = "\<lambda>r. steps r = None \<and> attempt_loop_ok config (run_attempts r) (run_success r)"
  obtain strict where runs: "oneShot_runs E strict model config 1 [] w = (Inr rs, w')"
    using dispatch_oneShot[OF assms(1) sc] by blast
  have "\<forall>r \<in> set rs. ?R r"
  proof (rule oneShot_runs_all[OF runs, where R = ?R])
    show "\<forall>r \<in> set []. ?R r" by simp
  next
    fix as ok final u u' n
    assume "oneShot_loop E strict model config 1 [] u = (Inr (as, ok, final), u')"
    then have "attempt_loop_ok config as ok" by (rule oneShot_loop_ok)
    then show "?R \<lparr>runNumber = n, run_success = ok, run_attempts = as, steps = None,
                    finalResponse = final\<rparr>" by simp
  qed
  with assms(2) show "?R r" by blast
next
  assume sc: "scenario = 3 \<or> scenario = 4"
  let ?P = "\<lambda>s. attempt_loop_ok config (step_attempts s) (step_success s)"
  let ?R = "\<lambda>r. \<exists>ss. steps r = Some ss \<and> (\<forall>s \<in> set ss. ?P s)"
  obtain strict where runs: "seq_runs E strict model config 1 [] w = (Inr rs, w')"
    using dispatch_sequential[OF assms(1) sc] by blast
  have step: "\<And>n u. ?R (fst (seq_run E strict model config n u))"
  proof -
    fix n u
    have "\<forall>s \<in> set (v_steps (snd (fst (seq_try E strict model config u)))). ?P s"
    proof (rule seq_try_steps)
      fix schema msgs v as ok res v' k name
      assume "step_loop E strict model config schema 1 msgs [] v = (Inr (as, ok, res), v')"
      then have "attempt_loop_ok config as ok" by (rule step_loop_ok)
      then show "?P (mkStep k name ok as)" by (simp add: mkStep_def)
    qed
    then show "?R (fst (seq_run E strict model config n u))"
      by (simp add: seq_run_fields)
  qed
  have "\<forall>r \<in> set rs. ?R r"
  proof (rule seq_runs_all[OF runs, where R = ?R])
    show "\<forall>r \<in> set []. ?R r" by simp
  qed (rule step)
  with assms(2) show "?R r" by blast
qed

text \<open>
  Claim C10. Every attempt recorded by any of the four scenario runners, in the flat
  attempt list of a run or in a step, has \<open>errorMessage\<close> equal to \<open>null\<close>.
\<close>

theorem attempts_never_set_errorMessage:
  assumes "dispatch E model config scenario w = (Inr rs, w')" and "r \<in> set rs"
  shows "no_errorMessage (run_attempts r) \<and>
         (\<forall>ss. steps r = Some ss \<longrightarrow> (\<forall>s \<in> set ss. no_errorMessage (step_attempts s)))"
proof -
  let ?P = "\<lambda>s. no_errorMessage (step_attempts s)"
  let ?R = "\<lambda>r. no_errorMessage (run_attempts r) \<and>
                 (\<forall>ss. steps r = Some ss \<longrightarrow> (\<forall>s \<in> set ss. ?P s))"
  consider "scenario = 1 \<or> scenario = 2" | "scenario = 3 \<or> scenario = 4"
    using dispatch_scenario[OF assms(1)] by blast
  then have "\<forall>r \<in> set rs. ?R r"
  proof cases
    case 1
    obtain strict where runs: "oneShot_runs E strict model config 1 [] w = (Inr rs, w')"
      using dispatch_oneShot[OF assms(1) 1] by blast
    show ?thesis
    proof (rule oneShot_runs_all[OF runs, where R = ?R])
      show "\<forall>r \<in> set []. ?R r" by simp
    next
      fix as ok final u u' n
      assume "oneShot_loop E strict model config 1 [] u = (Inr (as, ok, final), u')"
      then have "no_errorMessage as" by (rule oneShot_loop_errorMessage)
      then show "?R \<lparr>runNumber = n, run_success = ok, run_attempts = as, steps = None,
                      finalResponse = final\<rparr>" by simp
    qed
  next
    case 2
    obtain strict where runs: "seq_runs E strict model config 1 [] w = (Inr rs, w')"
      using dispatch_sequential[OF assms(1) 2] by blast
    have step: "\<And>n u. ?R (fst (seq_run E strict model config n u))"
    proof -
      fix n u
      have "\<forall>s \<in> set (v_steps (snd (fst (seq_try E strict model config u)))). ?P s"
      proof (rule seq_try_steps)
        fix schema msgs v as ok res v' k name
        assume "step_loop E strict model config schema 1 msgs [] v = (Inr (as, ok, res), v')"
        then have "no_errorMessage as" by (rule step_loop_errorMessage)
        then show "?P (mkStep k name ok as)" by (simp add: mkStep_def)
      qed
      then show "?R (fst (seq_run E strict model config n u))"
        by (simp add: seq_run_fields no_errorMessage_def)
    qed
    show ?thesis
    proof (rule seq_runs_all[OF runs, where R = ?R])
      show "\<forall>r \<in> set []. ?R r" by simp
    qed (rule step)
  qed
  with assms(2) show ?thesis by blast
qed

subsection \<open>Evaluating the runners on the concrete inputs\<close>

lemmas evaluate_executor =
  runAttempt_def runStrictAttempt_def runNonStrictAttempt_def withExponentialBackoff_def
  after_calls_def throttle_def sleep_def rawText_of_def isRateLimitError_def toLowerCase_def
  toLowerChar_def BACKOFF_MAX_RETRIES_def RATE_LIMITED_PROVIDERS_def RATE_LIMIT_DELAY_MS_def
  BACKOFF_BASE_MS_def parse_and_validate_def parseZodErrors_def or_zero_def Let_def

lemmas evaluate_inputs =
  demo_env_def objects_until_def objects_after_def ok_object_def ok_text_def network_error_def
  zod_error_def syntax_error_def new_Error_def gpt4o_def llama_def one_retry_fields w0_def

lemmas evaluate_runs =
  dispatch_def runScenario1_def runScenario2_def runScenario3_def runScenario4_def
  seq_run_def seq_try_def seq_step2_def seq_step3_def seq_merge_def thrown_with_def
  falsy_opt_def mkStep_def attemptResult_of_def errors_or_empty_def run_view_def
  attempts_view_def

lemma demo_scenario2:
  "\<exists>rs w'. dispatch (demo_env (\<lambda>k. Inl network_error) (objects_after 1) Inr) gpt4o one_retry 2 w0
              = (Inr rs, w') \<and>
           map run_view rs = [(True, [(1, False), (2, True)], None)]"
  by (simp add: evaluate_runs evaluate_executor evaluate_inputs)

lemma demo_scenario4:
  "\<exists>rs w'. dispatch (demo_env (\<lambda>k. Inl network_error) (objects_until 3) Inr) gpt4o one_retry 4 w0
              = (Inr rs, w') \<and>
           map run_view rs =
             [(True, [], Some [(1, True, [(1, True)]), (2, True, [(1, True)]), (3, True, [(1, True)])])]"
  by (simp add: evaluate_runs evaluate_executor evaluate_inputs)

subsection \<open>Claims about sequential runs\<close>

lemma step_loop_exhausted:
  assumes "step_loop E strict model config schema 1 messages [] w = (Inr (as, False, final), w')"
  shows "length as = maxRetries config + 1"
proof -
  have "\<not> False \<longrightarrow> length as = maxRetries config + 1"
  proof (rule step_loop_rule[OF assms, where I = "loop_inv config"
        and Q = "\<lambda>xs ok. \<not> ok \<longrightarrow> length xs = maxRetries config + 1"])
    show "loop_inv config 1 []" by (rule loop_inv_start)
  next
    fix n xs assume "loop_inv config n xs" and "\<not> n \<le> maxRetries config + 1"
    then show "\<not> False \<longrightarrow> length xs = maxRetries config + 1"
      using loop_inv_length[of config n xs] by (simp add: loop_inv_def)
  next
    fix n :: nat and xs :: "AttemptResult list" and p :: string and r :: exec_result
    show "\<not> True \<longrightarrow> length (xs @ [attemptResult_of n p r]) = maxRetries config + 1" by simp
  next
    fix n :: nat and xs :: "AttemptResult list" and p :: string and r :: exec_result
    assume "loop_inv config n xs" "n \<le> maxRetries config + 1" "\<not> success r"
    then show "loop_inv config (n + 1) (xs @ [attemptResult_of n p r])"
      by (rule loop_inv_failed)
  qed
  then show ?thesis by simp
qed

text \<open>
  Claim C3. In a sequential run (either mode) whose three steps each end with a success
  and a truthy result, and whose merged object the response schema rejects, the run loop
  records the run with \<open>success = false\<close>, \<open>finalResponse = null\<close> and the three
  steps, each with \<open>success = true\<close>; the loop goes on with the next run number, and the
  scenario runner returns its runs rather than throwing.
\<close>

theorem merge_failure_fails_the_run:
  assumes "step_loop E strict model config (SequentialPartSchema E 1) 1
             (step1_messages E strict) [] w = (Inr (a1, True, Some r1), w1)"
    and "truthy r1"
    and "step_loop E strict model config (SequentialPartSchema E 2) 1
             (step2_messages E strict r1) [] w1 = (Inr (a2, True, Some r2), w2)"
    and "truthy r2"
    and "step_loop E strict model config (SequentialPartSchema E 3) 1
             (step3_messages E strict r1 r2) [] w2 = (Inr (a3, True, Some r3), w3)"
    and "ResponseSchema E (mergeSequentialParts E r1 r2 r3) = Inl error"
  shows "recorded E strict model config n w
           \<lparr>runNumber = n, run_success = False, run_attempts = [],
            steps = Some [\<lparr>stepNumber = 1, stepName = ''Recommendation'', step_success = True,
                            step_attempts = a1\<rparr>,
                          \<lparr>stepNumber = 2, stepName = ''Details'', step_success = True,
                            step_attempts = a2\<rparr>,
                          \<lparr>stepNumber = 3, stepName = ''AI Config'', step_success = True,
                            step_attempts = a3\<rparr>],
            finalResponse = None\<rparr> w3"
proof (rule seq_runs_continue)
  show "seq_run E strict model config n w =
          (\<lparr>runNumber = n, run_success = False, run_attempts = [],
            steps = Some [\<lparr>stepNumber = 1, stepName = ''Recommendation'', step_success = True,
                            step_attempts = a1\<rparr>,
                          \<lparr>stepNumber = 2, stepName = ''Details'', step_success = True,
                            step_attempts = a2\<rparr>,
                          \<lparr>stepNumber = 3, stepName = ''AI Config'', step_success = True,
                            step_attempts = a3\<rparr>],
            finalResponse = None\<rparr>, w3)"
    using assms
    by (cases "truthy r3")
       (simp_all add: seq_run_def seq_try_def seq_step2_def seq_step3_def seq_merge_def
          thrown_with_def falsy_opt_def mkStep_def Let_def)
qed

text \<open>
  Claim C4. In a sequential run (either mode), when the attempt loop of step 1, or of
  step 2 after a successful step 1, or of step 3 after successful steps 1 and 2, ends
  without a success, it has made \<open>maxRetries + 1\<close> attempts, and the run loop records the
  run with exactly the steps up to that one, \<open>success = false\<close> and
  \<open>finalResponse = null\<close>; the loop goes on with the next run number, and the scenario
  runner returns its runs rather than throwing.
\<close>

theorem exhausted_step_ends_the_run:
  "(step_loop E strict model config (SequentialPartSchema E 1) 1
      (step1_messages E strict) [] w = (Inr (a1, False, None), w1)
    \<longrightarrow> length a1 = maxRetries config + 1 \<and>
        recorded E strict model config n w
          (failed_run n [mkStep 1 ''Recommendation'' False a1]) w1) \<and>
   (step_loop E strict model config (SequentialPartSchema E 1) 1
      (step1_messages E strict) [] w = (Inr (a1, True, Some r1), w1) \<and> truthy r1 \<and>
    step_loop E strict model config (SequentialPartSchema E 2) 1
      (step2_messages E strict r1) [] w1 = (Inr (a2, False, None), w2)
    \<longrightarrow> length a2 = maxRetries config + 1 \<and>
        recorded E strict model config n w
          (failed_run n [mkStep 1 ''Recommendation'' True a1, mkStep 2 ''Details'' False a2]) w2) \<and>
   (step_loop E strict model config (SequentialPartSchema E 1) 1
      (step1_messages E strict) [] w = (Inr (a1, True, Some r1), w1) \<and> truthy r1 \<and>
    step_loop E strict model config (SequentialPartSchema E 2) 1
      (step2_messages E strict r1) [] w1 = (Inr (a2, True, Some r2), w2) \<and> truthy r2 \<and>
    step_loop E strict model config (SequentialPartSchema E 3) 1
      (step3_messages E strict r1 r2) [] w2 = (Inr (a3, False, None), w3)
    \<longrightarrow> length a3 = maxRetries config + 1 \<and>
        recorded E strict model config n w
          (failed_run n [mkStep 1 ''Recommendation'' True a1, mkStep 2 ''Details'' True a2,
                         mkStep 3 ''AI Config'' False a3]) w3)"
proof (intro conjI impI)
  assume h: "step_loop E strict model config (SequentialPartSchema E 1) 1
      (step1_messages E strict) [] w = (Inr (a1, False, None), w1)"
  then show "length a1 = maxRetries config + 1" by (rule step_loop_exhausted)
  from h have "seq_run E strict model config n w
                 = (failed_run n [mkStep 1 ''Recommendation'' False a1], w1)"
    by (simp add: seq_run_def seq_try_def thrown_with_def falsy_opt_def failed_run_def Let_def)
  then show "recorded E strict model config n w
          (failed_run n [mkStep 1 ''Recommendation'' False a1]) w1"
    by (rule seq_runs_continue)
next
  assume h: "step_loop E strict model config (SequentialPartSchema E 1) 1
      (step1_messages E strict) [] w = (Inr (a1, True, Some r1), w1) \<and> truthy r1 \<and>
    step_loop E strict model config (SequentialPartSchema E 2) 1
      (step2_messages E strict r1) [] w1 = (Inr (a2, False, None), w2)"
  then show "length a2 = maxRetries config + 1" using step_loop_exhausted by blast
  from h have "seq_run E strict model config n w
                 = (failed_run n [mkStep 1 ''Recommendation'' True a1,
                                  mkStep 2 ''Details'' False a2], w2)"
    by (simp add: seq_run_def seq_try_def seq_step2_def thrown_with_def falsy_opt_def
        failed_run_def Let_def)
  then show "recorded E strict model config n w
          (failed_run n [mkStep 1 ''Recommendation'' True a1, mkStep 2 ''Details'' False a2]) w2"
    by (rule seq_runs_continue)
next
  assume h: "step_loop E strict model config (SequentialPartSchema E 1) 1
      (step1_messages E strict) [] w = (Inr (a1, True, Some r1), w1) \<and> truthy r1 \<and>
    step_loop E strict model config (SequentialPartSchema E 2) 1
      (step2_messages E strict r1) [] w1 = (Inr (a2, True, Some r2), w2) \<and> truthy r2 \<and>
    step_loop E strict model config (SequentialPartSchema E 3) 1
      (step3_messages E strict r1 r2) [] w2 = (Inr (a3, False, None), w3)"
  then show "length a3 = maxRetries config + 1" using step_loop_exhausted by blast
  from h have "seq_run E strict model config n w
                 = (failed_run n [mkStep 1 ''Recommendation'' True a1, mkStep 2 ''Details'' True a2,
                         mkStep 3 ''AI Config'' False a3], w3)"
    by (simp add: seq_run_def seq_try_def seq_step2_def seq_step3_def thrown_with_def
        falsy_opt_def failed_run_def Let_def)
  then show "recorded E strict model config n w
          (failed_run n [mkStep 1 ''Recommendation'' True a1, mkStep 2 ''Details'' True a2,
                         mkStep 3 ''AI Config'' False a3]) w3"
    by (rule seq_runs_continue)
qed

subsection \<open>The theorems on the concrete inputs\<close>

text \<open>The theorem of C5 on scenario 2: the first call fails with a network error, which
  the strict executor records as a failed attempt, and the second succeeds.\<close>

theorem attempt_loops_bounded_and_stop_at_success_witness:
  "\<exists>rs w'. dispatch (demo_env (\<lambda>k. Inl network_error) (objects_after 1) Inr) gpt4o one_retry 2 w0
              = (Inr rs, w') \<and>
           map run_view rs = [(True, [(1, False), (2, True)], None)] \<and>
           list_all (\<lambda>r. attempt_loop_ok one_retry (run_attempts r) (run_success r)) rs"
proof -
  let ?E = "demo_env (\<lambda>k. Inl network_error) (objects_after 1) Inr"
  obtain rs w' where d: "dispatch ?E gpt4o one_retry 2 w0 = (Inr rs, w')"
    and v: "map run_view rs = [(True, [(1, False), (2, True)], None)]"
    using demo_scenario2 by (elim exE conjE)
  have "\<forall>r \<in> set rs. attempt_loop_ok one_retry (run_attempts r) (run_success r)"
    using attempt_loops_bounded_and_stop_at_success[OF d] by simp
  then have "list_all (\<lambda>r. attempt_loop_ok one_retry (run_attempts r) (run_success r)) rs"
    by (simp add: list_all_iff)
  with d v
  have "dispatch ?E gpt4o one_retry 2 w0 = (Inr rs, w') \<and>
        map run_view rs = [(True, [(1, False), (2, True)], None)] \<and>
        list_all (\<lambda>r. attempt_loop_ok one_retry (run_attempts r) (run_success r)) rs"
    by simp
  then show ?thesis by (intro exI)
qed

text \<open>The theorem of C10 on scenario 4 with three steps that succeed at once.\<close>

theorem attempts_never_set_errorMessage_witness:
  "\<exists>rs w'. dispatch (demo_env (\<lambda>k. Inl network_error) (objects_until 3) Inr) gpt4o one_retry 4 w0
              = (Inr rs, w') \<and>
           map run_view rs =
             [(True, [], Some [(1, True, [(1, True)]), (2, True, [(1, True)]),
                               (3, True, [(1, True)])])] \<and>
           list_all (\<lambda>r. no_errorMessage (run_attempts r) \<and>
                          list_all (\<lambda>s. no_errorMessage (step_attempts s))
                            (case steps r of None \<Rightarrow> [] | Some ss \<Rightarrow> ss)) rs"
proof -
  let ?E = "demo_env (\<lambda>k. Inl network_error) (objects_until 3) Inr"
  obtain rs w' where d: "dispatch ?E gpt4o one_retry 4 w0 = (Inr rs, w')"
    and v: "map run_view rs =
             [(True, [], Some [(1, True, [(1, True)]), (2, True, [(1, True)]),
                               (3, True, [(1, True)])])]"
    using demo_scenario4 by (elim exE conjE)
  have "\<forall>r \<in> set rs. no_errorMessage (run_attempts r) \<and>
          list_all (\<lambda>s. no_errorMessage (step_attempts s))
            (case steps r of None \<Rightarrow> [] | Some ss \<Rightarrow> ss)"
  proof
    fix r assume r: "r \<in> set rs"
    note fact = attempts_never_set_errorMessage[OF d r]
    show "no_errorMessage (run_attempts r) \<and>
          list_all (\<lambda>s. no_errorMessage (step_attempts s))
            (case steps r of None \<Rightarrow> [] | Some ss \<Rightarrow> ss)"
      using fact by (cases "steps r") (simp_all add: list_all_iff)
  qed
  then have "list_all (\<lambda>r. no_errorMessage (run_attempts r) \<and>
                          list_all (\<lambda>s. no_errorMessage (step_attempts s))
                            (case steps r of None \<Rightarrow> [] | Some ss \<Rightarrow> ss)) rs"
    by (simp add: list_all_iff)
  with d v
  have "dispatch ?E gpt4o one_retry 4 w0 = (Inr rs, w') \<and>
        map run_view rs =
             [(True, [], Some [(1, True, [(1, True)]), (2, True, [(1, True)]),
                               (3, True, [(1, True)])])] \<and>
        list_all (\<lambda>r. no_errorMessage (run_attempts r) \<and>
                          list_all (\<lambda>s. no_errorMessage (step_attempts s))
                            (case steps r of None \<Rightarrow> [] | Some ss \<Rightarrow> ss)) rs"
    by simp
  then show ?thesis by (intro exI)
qed

lemmas evaluate_step = evaluate_executor evaluate_inputs attemptResult_of_def
  errors_or_empty_def attempts_view_def

lemma demo_step_succeeds:
  assumes "c < n"
  shows "\<exists>as. step_loop (demo_env (\<lambda>k. Inl network_error) (objects_until n) response) True gpt4o
                one_retry schema 1 messages [] \<lparr>calls = c, slept = []\<rparr>
              = (Inr (as, True, Some (JObj [])), \<lparr>calls = Suc c, slept = []\<rparr>) \<and>
              attempts_view as = [(1, True)]"
  using assms by (simp add: evaluate_step)

lemma demo_step_exhausted:
  assumes "n \<le> c"
  shows "\<exists>as. step_loop (demo_env (\<lambda>k. Inl network_error) (objects_until n) response) True gpt4o
                one_retry schema 1 messages [] \<lparr>calls = c, slept = []\<rparr>
              = (Inr (as, False, None), \<lparr>calls = Suc (Suc c), slept = []\<rparr>) \<and>
              attempts_view as = [(1, False), (2, False)]"
  using assms by (simp add: evaluate_step)

text \<open>The theorem of C3 on scenario 4 with three steps that succeed at once and a
  response schema that rejects the merged object.\<close>

theorem merge_failure_fails_the_run_witness:
  "\<exists>a1 a2 a3.
     recorded (demo_env (\<lambda>k. Inl network_error) (objects_until 3) (\<lambda>j. Inl zod_error)) True gpt4o
       one_retry 1 w0
       \<lparr>runNumber = 1, run_success = False, run_attempts = [],
        steps = Some [\<lparr>stepNumber = 1, stepName = ''Recommendation'', step_success = True,
                        step_attempts = a1\<rparr>,
                      \<lparr>stepNumber = 2, stepName = ''Details'', step_success = True,
                        step_attempts = a2\<rparr>,
                      \<lparr>stepNumber = 3, stepName = ''AI Config'', step_success = True,
                        step_attempts = a3\<rparr>],
        finalResponse = None\<rparr>
       \<lparr>calls = 3, slept = []\<rparr> \<and>
     attempts_view a1 = [(1, True)] \<and> attempts_view a2 = [(1, True)] \<and>
     attempts_view a3 = [(1, True)]"
proof -
  let ?E = "demo_env (\<lambda>k. Inl network_error) (objects_until 3) (\<lambda>j. Inl zod_error)"
  let ?w1 = "\<lparr>calls = 1, slept = []\<rparr>" and ?w2 = "\<lparr>calls = 2, slept = []\<rparr>"
  let ?w3 = "\<lparr>calls = 3, slept = []\<rparr>"
  obtain a1 where s1: "step_loop ?E True gpt4o one_retry (SequentialPartSchema ?E 1) 1
                         (step1_messages ?E True) [] w0 = (Inr (a1, True, Some (JObj [])), ?w1)"
    and v1: "attempts_view a1 = [(1, True)]"
    using demo_step_succeeds[where c = 0 and n = 3 and response = "\<lambda>j. Inl zod_error"
        and schema = "SequentialPartSchema ?E 1" and messages = "step1_messages ?E True"]
    by (auto simp: w0_def simp del: step_loop.simps)
  obtain a2 where s2: "step_loop ?E True gpt4o one_retry (SequentialPartSchema ?E 2) 1
                         (step2_messages ?E True (JObj [])) [] ?w1
                       = (Inr (a2, True, Some (JObj [])), ?w2)"
    and v2: "attempts_view a2 = [(1, True)]"
    using demo_step_succeeds[where c = 1 and n = 3 and response = "\<lambda>j. Inl zod_error"
        and schema = "SequentialPartSchema ?E 2"
        and messages = "step2_messages ?E True (JObj [])"]
    by (auto simp del: step_loop.simps)
  obtain a3 where s3: "step_loop ?E True gpt4o one_retry (SequentialPartSchema ?E 3) 1
                         (step3_messages ?E True (JObj []) (JObj [])) [] ?w2
                       = (Inr (a3, True, Some (JObj [])), ?w3)"
    and v3: "attempts_view a3 = [(1, True)]"
    using demo_step_succeeds[where c = 2 and n = 3 and response = "\<lambda>j. Inl zod_error"
        and schema = "SequentialPartSchema ?E 3"
        and messages = "step3_messages ?E True (JObj []) (JObj [])"]
    by (auto simp del: step_loop.simps)
  have t: "truthy (JObj [])" by simp
  have m: "ResponseSchema ?E (mergeSequentialParts ?E (JObj []) (JObj []) (JObj [])) = Inl zod_error"
    by (simp add: demo_env_def)
  note merge_failure_fails_the_run[OF s1 t s2 t s3 m, of 1]
  with v1 v2 v3 show ?thesis by (intro exI[of _ a1] exI[of _ a2] exI[of _ a3]) simp
qed

text \<open>The theorem of C4 on three providers: one whose calls all fail, one whose first
  call succeeds, one whose first two calls succeed. With one retry, the failing step
  makes two attempts.\<close>

theorem exhausted_step_ends_the_run_witness:
  "(\<exists>a1. recorded (demo_env (\<lambda>k. Inl network_error) (objects_until 0) Inr) True gpt4o one_retry
            1 w0 (failed_run 1 [mkStep 1 ''Recommendation'' False a1]) \<lparr>calls = 2, slept = []\<rparr> \<and>
          attempts_view a1 = [(1, False), (2, False)]) \<and>
   (\<exists>a1 a2. recorded (demo_env (\<lambda>k. Inl network_error) (objects_until 1) Inr) True gpt4o
               one_retry 1 w0
               (failed_run 1 [mkStep 1 ''Recommendation'' True a1, mkStep 2 ''Details'' False a2])
               \<lparr>calls = 3, slept = []\<rparr> \<and>
             attempts_view a1 = [(1, True)] \<and> attempts_view a2 = [(1, False), (2, False)]) \<and>
   (\<exists>a1 a2 a3. recorded (demo_env (\<lambda>k. Inl network_error) (objects_until 2) Inr) True gpt4o
                  one_retry 1 w0
                  (failed_run 1 [mkStep 1 ''Recommendation'' True a1, mkStep 2 ''Details'' True a2,
                                 mkStep 3 ''AI Config'' False a3])
                  \<lparr>calls = 4, slept = []\<rparr> \<and>
                attempts_view a1 = [(1, True)] \<and> attempts_view a2 = [(1, True)] \<and>
                attempts_view a3 = [(1, False), (2, False)])"
proof (intro conjI)
  let ?E = "demo_env (\<lambda>k. Inl network_error) (objects_until 0) Inr"
  obtain a1 where s1: "step_loop ?E True gpt4o one_retry (SequentialPartSchema ?E 1) 1
                         (step1_messages ?E True) [] w0
                       = (Inr (a1, False, None), \<lparr>calls = 2, slept = []\<rparr>)"
    and v1: "attempts_view a1 = [(1, False), (2, False)]"
    using demo_step_exhausted[where c = 0 and n = 0 and response = Inr
        and schema = "SequentialPartSchema ?E 1" and messages = "step1_messages ?E True"]
    by (auto simp: w0_def numeral_2_eq_2 simp del: step_loop.simps)
  from exhausted_step_ends_the_run[of ?E True gpt4o one_retry w0 a1 "\<lparr>calls = 2, slept = []\<rparr>" 1]
  have "recorded ?E True gpt4o one_retry 1 w0 (failed_run 1 [mkStep 1 ''Recommendation'' False a1])
          \<lparr>calls = 2, slept = []\<rparr>"
    using s1 by (simp del: step_loop.simps)
  with v1 show "\<exists>a1. recorded ?E True gpt4o one_retry 1 w0
                  (failed_run 1 [mkStep 1 ''Recommendation'' False a1]) \<lparr>calls = 2, slept = []\<rparr> \<and>
                attempts_view a1 = [(1, False), (2, False)]"
    by (intro exI[of _ a1]) simp
next
  let ?E = "demo_env (\<lambda>k. Inl network_error) (objects_until 1) Inr"
  let ?w1 = "\<lparr>calls = 1, slept = []\<rparr>"
  obtain a1 where s1: "step_loop ?E True gpt4o one_retry (SequentialPartSchema ?E 1) 1
                         (step1_messages ?E True) [] w0 = (Inr (a1, True, Some (JObj [])), ?w1)"
    and v1: "attempts_view a1 = [(1, True)]"
    using demo_step_succeeds[where c = 0 and n = 1 and response = Inr
        and schema = "SequentialPartSchema ?E 1" and messages = "step1_messages ?E True"]
    by (auto simp: w0_def simp del: step_loop.simps)
  obtain a2 where s2: "step_loop ?E True gpt4o one_retry (SequentialPartSchema ?E 2) 1
                         (step2_messages ?E True (JObj [])) [] ?w1
                       = (Inr (a2, False, None), \<lparr>calls = 3, slept = []\<rparr>)"
    and v2: "attempts_view a2 = [(1, False), (2, False)]"
    using demo_step_exhausted[where c = 1 and n = 1 and response = Inr
        and schema = "SequentialPartSchema ?E 2"
        and messages = "step2_messages ?E True (JObj [])"]
    by (auto simp: numeral_3_eq_3 simp del: step_loop.simps)
  from exhausted_step_ends_the_run[of ?E True gpt4o one_retry w0 a1 ?w1 1 "JObj []" a2
      "\<lparr>calls = 3, slept = []\<rparr>"]
  have "recorded ?E True gpt4o one_retry 1 w0
          (failed_run 1 [mkStep 1 ''Recommendation'' True a1, mkStep 2 ''Details'' False a2])
          \<lparr>calls = 3, slept = []\<rparr>"
    using s1 s2 by (simp del: step_loop.simps)
  with v1 v2 show "\<exists>a1 a2. recorded ?E True gpt4o one_retry 1 w0
               (failed_run 1 [mkStep 1 ''Recommendation'' True a1, mkStep 2 ''Details'' False a2])
               \<lparr>calls = 3, slept = []\<rparr> \<and>
             attempts_view a1 = [(1, True)] \<and> attempts_view a2 = [(1, False), (2, False)]"
    by (intro exI[of _ a1] exI[of _ a2]) simp
next
  let ?E = "demo_env (\<lambda>k. Inl network_error) (objects_until 2) Inr"
  let ?w1 = "\<lparr>calls = 1, slept = []\<rparr>" and ?w2 = "\<lparr>calls = 2, slept = []\<rparr>"
  obtain a1 where s1: "step_loop ?E True gpt4o one_retry (SequentialPartSchema ?E 1) 1
                         (step1_messages ?E True) [] w0 = (Inr (a1, True, Some (JObj [])), ?w1)"
    and v1: "attempts_view a1 = [(1, True)]"
    using demo_step_succeeds[where c = 0 and n = 2 and response = Inr
        and schema = "SequentialPartSchema ?E 1" and messages = "step1_messages ?E True"]
    by (auto simp: w0_def simp del: step_loop.simps)
  obtain a2 where s2: "step_loop ?E True gpt4o one_retry (SequentialPartSchema ?E 2) 1
                         (step2_messages ?E True (JObj [])) [] ?w1
                       = (Inr (a2, True, Some (JObj [])), ?w2)"
    and v2: "attempts_view a2 = [(1, True)]"
    using demo_step_succeeds[where c = 1 and n = 2 and response = Inr
        and schema = "SequentialPartSchema ?E 2"
        and messages = "step2_messages ?E True (JObj [])"]
    by (auto simp del: step_loop.simps)
  obtain a3 where s3: "step_loop ?E True gpt4o one_retry (SequentialPartSchema ?E 3) 1
                         (step3_messages ?E True (JObj []) (JObj [])) [] ?w2
                       = (Inr (a3, False, None), \<lparr>calls = 4, slept = []\<rparr>)"
    and v3: "attempts_view a3 = [(1, False), (2, False)]"
    using demo_step_exhausted[where c = 2 and n = 2 and response = Inr
        and schema = "SequentialPartSchema ?E 3"
        and messages = "step3_messages ?E True (JObj []) (JObj [])"]
    by (auto simp: eval_nat_numeral simp del: step_loop.simps)
  from exhausted_step_ends_the_run[of ?E True gpt4o one_retry w0 a1 ?w1 1 "JObj []" a2 ?w2
      "JObj []" a3 "\<lparr>calls = 4, slept = []\<rparr>"]
  have "recorded ?E True gpt4o one_retry 1 w0
          (failed_run 1 [mkStep 1 ''Recommendation'' True a1, mkStep 2 ''Details'' True a2,
                         mkStep 3 ''AI Config'' False a3])
          \<lparr>calls = 4, slept = []\<rparr>"
    using s1 s2 s3 by (simp del: step_loop.simps)
  with v1 v2 v3 show "\<exists>a1 a2 a3. recorded ?E True gpt4o one_retry 1 w0
                  (failed_run 1 [mkStep 1 ''Recommendation'' True a1, mkStep 2 ''Details'' True a2,
                                 mkStep 3 ''AI Config'' False a3])
                  \<lparr>calls = 4, slept = []\<rparr> \<and>
                attempts_view a1 = [(1, True)] \<and> attempts_view a2 = [(1, True)] \<and>
                attempts_view a3 = [(1, False), (2, False)]"
    by (intro exI[of _ a1] exI[of _ a2] exI[of _ a3]) simp
qed

subsection \<open>Claims about the orchestrator\<close>

lemma scenarios_loop_keys:
  assumes "scenarios_loop E model config scenarios results w = (Inr results', w')"
    and "\<not> supportsStrictMode model"
  shows "dom results' = dom results \<union> {s \<in> set scenarios. s = 1 \<or> s = 3} \<and>
         set scenarios \<subseteq> {1, 2, 3, 4}"
  using assms
proof (induction scenarios arbitrary: results w)
  case Nil
  then show ?case by simp
next
  case (Cons scenario rest)
  show ?case
  proof (cases "scenario = 2 \<or> scenario = 4")
    case True
    with Cons.prems have "scenarios_loop E model config rest results w = (Inr results', w')"
      by (simp add: Let_def)
    from Cons.IH[OF this Cons.prems(2)] True show ?thesis by auto
  next
    case False
    obtain res w1 where d: "dispatch E model config scenario w = (res, w1)"
      by (cases "dispatch E model config scenario w") auto
    show ?thesis
    proof (cases res)
      case (Inl e)
      with Cons.prems(1) False d show ?thesis by (simp add: Let_def)
    next
      case (Inr rs)
      let ?results = "results(scenario \<mapsto>
                        \<lparr>runs = rs, summary = calculateScenarioSummary rs (scenario = 3 \<or> scenario = 4)\<rparr>)"
      from Cons.prems(1) False d Inr
      have rec: "scenarios_loop E model config rest ?results w1 = (Inr results', w')"
        by (simp add: Let_def)
      have sc: "scenario = 1 \<or> scenario = 3"
        using dispatch_scenario[of E model config scenario w rs w1] d Inr False by simp
      have dm: "dom ?results = insert scenario (dom results)" by simp
      from Cons.IH[OF rec Cons.prems(2)]
      have "dom results' = insert scenario (dom results) \<union> {s \<in> set rest. s = 1 \<or> s = 3}"
        and "set rest \<subseteq> {1, 2, 3, 4}"
        unfolding dm by blast+
      with sc show ?thesis by auto
    qed
  qed
qed

text \<open>
  Claim C8. For a model whose capability flag denies strict mode, the result map that
  \<open>runModelTests\<close> returns has no entry under the keys 2 and 4, whether or not they were
  requested, and has an entry for every requested scenario 1 or 3: its keys are exactly
  the requested non-strict scenarios.
\<close>

theorem strict_scenarios_skipped_without_entry:
  assumes "getModelWithKeys E modelId = Some model" and "\<not> supportsStrictMode model"
    and "runModelTests E modelId scenarios config w = (Inr results, w')"
  shows "results 2 = None \<and> results 4 = None \<and>
         (\<forall>s \<in> set scenarios. s = 1 \<or> s = 3 \<longrightarrow> results s \<noteq> None) \<and>
         dom results = {s \<in> set scenarios. s = 1 \<or> s = 3}"
proof -
  from assms(1,3)
  have "scenarios_loop E model config scenarios Map.empty w = (Inr results, w')"
    by (simp add: runModelTests_def)
  from scenarios_loop_keys[OF this assms(2)]
  have d: "dom results = {s \<in> set scenarios. s = 1 \<or> s = 3}" by simp
  then have "2 \<notin> dom results" "4 \<notin> dom results" by auto
  then have none: "results 2 = None" "results 4 = None" by (simp_all add: domIff)
  have "\<forall>s \<in> set scenarios. s = 1 \<or> s = 3 \<longrightarrow> s \<in> dom results"
    using d by auto
  then have some: "\<forall>s \<in> set scenarios. s = 1 \<or> s = 3 \<longrightarrow> results s \<noteq> None"
    by (simp add: domIff)
  from none some d show ?thesis by (intro conjI)
qed

lemma demo_llama_suite:
  "\<exists>results w'.
     runModelTests (demo_env (\<lambda>k. Inr ok_text) (objects_until 0) Inr) ''groq-llama-3.3-70b''
       [2, 3, 4] one_retry w0 = (Inr results, w') \<and>
     map_option (\<lambda>sr. map run_view (runs sr)) (results 3) =
       Some [(True, [], Some [(1, True, [(1, True)]), (2, True, [(1, True)]),
                              (3, True, [(1, True)])])] \<and>
     w' = \<lparr>calls = 3, slept = [5000, 5000, 5000]\<rparr>"
  by (simp add: runModelTests_def evaluate_runs evaluate_executor evaluate_inputs)

text \<open>The theorem of C8 on a Groq model asked for scenarios 2, 3 and 4: only scenario 3
  runs, and only it has an entry.\<close>

theorem strict_scenarios_skipped_without_entry_witness:
  "\<exists>results w'.
     runModelTests (demo_env (\<lambda>k. Inr ok_text) (objects_until 0) Inr) ''groq-llama-3.3-70b''
       [2, 3, 4] one_retry w0 = (Inr results, w') \<and>
     results 2 = None \<and> results 4 = None \<and>
     map_option (\<lambda>sr. map run_view (runs sr)) (results 3) =
       Some [(True, [], Some [(1, True, [(1, True)]), (2, True, [(1, True)]),
                              (3, True, [(1, True)])])]"
proof -
  let ?E = "demo_env (\<lambda>k. Inr ok_text) (objects_until 0) Inr"
  obtain results w' where r: "runModelTests ?E ''groq-llama-3.3-70b'' [2, 3, 4] one_retry w0
                               = (Inr results, w')"
    and v: "map_option (\<lambda>sr. map run_view (runs sr)) (results 3) =
       Some [(True, [], Some [(1, True, [(1, True)]), (2, True, [(1, True)]),
                              (3, True, [(1, True)])])]"
    using demo_llama_suite by (elim exE conjE)
  have g: "getModelWithKeys ?E ''groq-llama-3.3-70b'' = Some llama"
    by (simp add: demo_env_def llama_def)
  have ns: "\<not> supportsStrictMode llama" by (simp add: llama_def)
  from strict_scenarios_skipped_without_entry[OF g ns r] v r
  have "runModelTests ?E ''groq-llama-3.3-70b'' [2, 3, 4] one_retry w0 = (Inr results, w') \<and>
     results 2 = None \<and> results 4 = None \<and>
     map_option (\<lambda>sr. map run_view (runs sr)) (results 3) =
       Some [(True, [], Some [(1, True, [(1, True)]), (2, True, [(1, True)]),
                              (3, True, [(1, True)])])]"
    by simp
  then show ?thesis by (intro exI)
qed

subsection \<open>The summary on the runs of the repository's tests\<close>

lemmas evaluate_summary =
  calculateScenarioSummary_def afterRetryRate_def counts_toward_def successAttemptIndex_def
  step_indices_def percent_def average_def all_attempts_def run_tokens_def attempt_tokens_def
  or_zero_def mock_run_def mock_sequential_def mock_attempt_def mock_step_def
  sequential_run_def multiple_retries_run_def mkStep_def Let_def upt_rec

lemma test_success_rates:
  "calculateScenarioSummary
     [mock_run [True], mock_run [False, True], mock_run [False, False],
      mock_run [False, False, True]] False
   = \<lparr>successRate = 75, firstAttemptSuccessRate = 25, afterRetry1SuccessRate = 50,
      afterRetry2SuccessRate = 75, afterRetry3SuccessRate = 75, averageAttempts = 2,
      averageAttemptsPerSuccess = 2, averageTokensPerSuccess = 300, totalTokensUsed = 1200\<rparr>"
  by (simp add: evaluate_summary)

lemma test_fourth_attempt:
  "calculateScenarioSummary [mock_run [False, False, False, True]] False
   = \<lparr>successRate = 100, firstAttemptSuccessRate = 0, afterRetry1SuccessRate = 0,
      afterRetry2SuccessRate = 0, afterRetry3SuccessRate = 100, averageAttempts = 4,
      averageAttemptsPerSuccess = 4, averageTokensPerSuccess = 600, totalTokensUsed = 600\<rparr>"
  by (simp add: evaluate_summary)

lemma test_sequential_first_attempt:
  "calculateScenarioSummary [mock_sequential [[True], [True], [True]]] True
   = \<lparr>successRate = 100, firstAttemptSuccessRate = 100, afterRetry1SuccessRate = 100,
      afterRetry2SuccessRate = 100, afterRetry3SuccessRate = 100, averageAttempts = 3,
      averageAttemptsPerSuccess = 3, averageTokensPerSuccess = 450, totalTokensUsed = 450\<rparr>"
  by (simp add: evaluate_summary)

lemma test_sequential_with_retries:
  "calculateScenarioSummary [mock_sequential [[False, True], [True], [True]]] True
   = \<lparr>successRate = 100, firstAttemptSuccessRate = 0, afterRetry1SuccessRate = 100,
      afterRetry2SuccessRate = 100, afterRetry3SuccessRate = 100, averageAttempts = 4,
      averageAttemptsPerSuccess = 4, averageTokensPerSuccess = 600, totalTokensUsed = 600\<rparr>"
  by (simp add: evaluate_summary)

text \<open>The run of the test "multiple retries" has consumed three retries in all (two in
  step 1, one in step 2): the summary counts it at depth 3 only. The repository's test
  expects \<open>afterRetry2SuccessRate = 100\<close> of it ("max retries per step").\<close>

lemma test_sequential_multiple_retries:
  "mock_sequential [[False, False, True], [False, True], [True]] = multiple_retries_run"
  "calculateScenarioSummary [multiple_retries_run] True
   = \<lparr>successRate = 100, firstAttemptSuccessRate = 0, afterRetry1SuccessRate = 0,
      afterRetry2SuccessRate = 0, afterRetry3SuccessRate = 100, averageAttempts = 6,
      averageAttemptsPerSuccess = 6, averageTokensPerSuccess = 900, totalTokensUsed = 900\<rparr>"
  by (simp_all add: evaluate_summary)

lemma test_sequential_attempts:
  "averageAttempts
     (calculateScenarioSummary [mock_sequential [[False, True], [True], [False, False, True]]] True)
     = 6"
  by (simp add: evaluate_summary)

lemma test_sequential_failed:
  "calculateScenarioSummary [mock_sequential [[True], [False, False], [False]]] True
   = \<lparr>successRate = 0, firstAttemptSuccessRate = 0, afterRetry1SuccessRate = 0,
      afterRetry2SuccessRate = 0, afterRetry3SuccessRate = 0, averageAttempts = 4,
      averageAttemptsPerSuccess = 0, averageTokensPerSuccess = 0, totalTokensUsed = 600\<rparr>"
  by (simp add: evaluate_summary)

lemma test_empty:
  "calculateScenarioSummary [] isSequential
   = \<lparr>successRate = 0, firstAttemptSuccessRate = 0, afterRetry1SuccessRate = 0,
      afterRetry2SuccessRate = 0, afterRetry3SuccessRate = 0, averageAttempts = 0,
      averageAttemptsPerSuccess = 0, averageTokensPerSuccess = 0, totalTokensUsed = 0\<rparr>"
  by (simp add: calculateScenarioSummary_def)

subsection \<open>Starting a run while another is running\<close>

lemma arrives_while_running:
  assumes "runningRuns (activeRuns s) \<noteq> []"
  shows "handle R (Arrives tag req) s =
           s\<lparr>replies := replies s @
               [(tag, error_reply 409
                  ''A test is already running. Please wait for it to complete or cancel it.'')]\<rparr>"
  using assms by (simp add: POST_guard_def)

lemma runningRuns_map_set:
  assumes "runningRuns tbl = []"
  shows "length (runningRuns (map_set k v tbl)) \<le> 1"
  using assms
proof (induction tbl)
  case Nil
  then show ?case by (simp add: runningRuns_def)
next
  case (Cons kv tbl)
  obtain k' v' where kv: "kv = (k', v')" by (cases kv) auto
  from Cons.prems kv have nr: "status v' \<noteq> Running" and rest: "runningRuns tbl = []"
    by (auto simp: runningRuns_def split: if_splits)
  show ?case
  proof (cases "k' = k")
    case True
    with kv rest show ?thesis by (simp add: runningRuns_def)
  next
    case False
    with kv nr Cons.IH[OF rest] show ?thesis by (simp add: runningRuns_def)
  qed
qed

lemma POST_rest_running:
  assumes "runningRuns tbl = []"
  shows "length (runningRuns (fst (snd (POST_rest R req n tbl)))) \<le> 1"
  using assms runningRuns_map_set[OF assms]
  by (simp add: POST_rest_def Let_def split: sum.splits)

lemma uninterrupted_post_keeps_one_running:
  assumes "length (runningRuns (activeRuns s)) \<le> 1" and "map_of (suspended s) tag = None"
  shows "length (runningRuns (activeRuns (handle R (BodySettled tag) (handle R (Arrives tag req) s))))
           \<le> 1"
proof (cases "runningRuns (activeRuns s) = []")
  case False
  then show ?thesis using assms by (simp add: POST_guard_def)
next
  case True
  have m: "map_of (suspended s @ [(tag, req)]) tag = Some req"
    using assms(2) by (simp add: map_add_def)
  obtain reply tbl n where p: "POST_rest R req (created s) (activeRuns s) = (reply, tbl, n)"
    by (cases "POST_rest R req (created s) (activeRuns s)") auto
  with POST_rest_running[OF True, of R req "created s"]
  have "length (runningRuns tbl) \<le> 1" by simp
  with True m p show ?thesis by (simp add: POST_guard_def)
qed

lemma runningRuns_set_status:
  assumes "st \<noteq> Running"
  shows "length (runningRuns (set_status k st err tbl)) \<le> length (runningRuns tbl)"
  using assms by (induction tbl) (auto simp: runningRuns_def set_status_def)

lemma runningRuns_map_delete:
  "length (runningRuns (map_delete k tbl)) \<le> length (runningRuns tbl)"
  by (induction tbl) (auto simp: runningRuns_def map_delete_def)

lemma settling_and_expiry_start_nothing:
  "length (runningRuns (activeRuns (handle R (SuiteSettled runId rejected) s)))
     \<le> length (runningRuns (activeRuns s))"
  "length (runningRuns (activeRuns (handle R (TimerFired runId) s)))
     \<le> length (runningRuns (activeRuns s))"
  by (cases rejected) (simp_all add: runningRuns_set_status runningRuns_map_delete)

text \<open>
  Claim C7 on two requests whose handlers overlap. Both arrive while the table is empty:
  each handler passes the check and waits for its body. When the bodies settle, each
  handler stores an entry with status \<open>running\<close> and answers 200 with a run id. The
  table then holds two running entries; neither request was rejected. (A request that
  arrives while an entry is running is rejected and changes nothing, and a handler that
  no other handler overlaps leaves at most one running entry; the settling of a suite and
  the timer start nothing: the lemmas above.)
\<close>

theorem interleaved_posts_both_running:
  "map (\<lambda>kv. (fst kv, status (snd kv)))
     (activeRuns (handle_all demo_route
        [Arrives 1 demo_request, Arrives 2 demo_request, BodySettled 1, BodySettled 2] server0))
     = [(''run-a'', Running), (''run-b'', Running)] \<and>
   map (\<lambda>p. (fst p, http_status (snd p)))
     (replies (handle_all demo_route
        [Arrives 1 demo_request, Arrives 2 demo_request, BodySettled 1, BodySettled 2] server0))
     = [(1, 200), (2, 200)] \<and>
   length (runningRuns (activeRuns (handle_all demo_route
        [Arrives 1 demo_request, Arrives 2 demo_request, BodySettled 1, BodySettled 2] server0)))
     = 2"
  by (simp add: server0_def demo_route_def demo_request_def POST_guard_def POST_rest_def
      runningRuns_def getModelDefinition_def hasKeyForProvider_def nonempty_str_def gpt4o_def
      Let_def)

end
